theory Spec2Isabelle
  imports Complex_Main "HOL-Library.AList"
begin

section \<open>Python errors\<close>

text \<open>
  Every \<open>raise\<close> of the modelled code, and every exception the Python, NumPy or PyTorch
  runtime raises on its behalf, is a value of this type. A function that can raise returns
  \<open>py_error + 'a\<close>, with \<open>Inl\<close> the exception. The \<open>ValueError\<close> raised by
  \<open>_find_cutoff\<close> is what the specification calls \<open>ConfigurationError\<close>.
\<close>

datatype py_error =
  ValueError | IndexError | TypeError | AttributeError | KeyError | ZeroDivisionError

section \<open>Box geometry: \<open>horizon/yolotrt/postprocessing.py\<close>\<close>

text \<open>
  A row of an \<open>(N, 4)\<close> array is a quadruple, an \<open>(N, 4)\<close> array a list of rows.
  Coordinates are rational numbers: arithmetic is exact, the rounding of \<open>float32\<close> is
  not modelled.
\<close>

type_synonym box = "rat \<times> rat \<times> rat \<times> rat"

definition cxcywh_to_xyxy :: "box list \<Rightarrow> box list" where
  "cxcywh_to_xyxy bboxes =
     map (\<lambda>(center_x, center_y, width, height).
            (center_x - width / 2, center_y - height / 2,
             center_x + width / 2, center_y + height / 2)) bboxes"

definition xyxy_to_xywh :: "box list \<Rightarrow> box list" where
  "xyxy_to_xywh bboxes =
     map (\<lambda>(top_left_x, top_left_y, bottom_right_x, bottom_right_y).
            (top_left_x, top_left_y,
             bottom_right_x - top_left_x, bottom_right_y - top_left_y)) bboxes"

definition intersection_box :: "box \<Rightarrow> box list \<Rightarrow> box list" where
  "intersection_box target_box boxes =
     (case target_box of (x1, y1, x2, y2) \<Rightarrow>
        map (\<lambda>(a1, b1, a2, b2). (max x1 a1, max y1 b1, min x2 a2, min y2 b2)) boxes)"

definition intersection_area :: "box \<Rightarrow> box list \<Rightarrow> rat list" where
  "intersection_area target_box boxes =
     map (\<lambda>(xx1, yy1, xx2, yy2). max 0 (xx2 - xx1 + 1) * max 0 (yy2 - yy1 + 1))
         (intersection_box target_box boxes)"

text \<open>
  \<open>union[union == 0] += 1e-7\<close> touches exactly the entries that are zero.
\<close>

definition iou :: "box \<Rightarrow> box list \<Rightarrow> rat \<Rightarrow> rat list \<Rightarrow> rat list" where
  "iou target_box boxes target_area areas =
     map (\<lambda>(inter, area).
            let union = target_area + area - inter;
                union = (if union = 0 then union + 1 / 10000000 else union)
            in inter / union)
         (zip (intersection_area target_box boxes) areas)"

text \<open>
  The area table that \<open>nms\<close> builds before its loop:
  \<open>areas = (x2 - x1) * (y2 - y1)\<close>.
\<close>

definition box_areas :: "box list \<Rightarrow> rat list" where
  "box_areas bboxes = map (\<lambda>(x1, y1, x2, y2). (x2 - x1) * (y2 - y1)) bboxes"

subsection \<open>Greedy suppression\<close>

text \<open>
  \<open>np.argsort(scores)[::-1]\<close>: the indices by ascending score, reversed. NumPy does not
  fix the order of equal scores; the model sorts stably.
\<close>

definition argsort :: "rat list \<Rightarrow> nat list" where
  "argsort scores = sort_key (\<lambda>i. scores ! i) [0..<length scores]"

text \<open>
  \<open>if classes:\<close> asks NumPy for the truth value of the array: an array of two or more
  elements raises \<open>ValueError\<close>, an array of one element has the truth value of that
  element, an empty array is false (newer NumPy releases raise there too; the loop of
  \<open>nms\<close> never reaches the test with an empty \<open>scores\<close>). \<open>None\<close> is false.
\<close>

definition truth_value :: "int list option \<Rightarrow> py_error + bool" where
  "truth_value classes =
     (case classes of
        None \<Rightarrow> Inr False
      | Some [] \<Rightarrow> Inr False
      | Some [c] \<Rightarrow> Inr (c \<noteq> 0)
      | Some _ \<Rightarrow> Inl ValueError)"

text \<open>\<open>np.union1d\<close>: the sorted union without duplicates.\<close>

definition union1d :: "nat list \<Rightarrow> nat list \<Rightarrow> nat list" where
  "union1d a b = sort (remdups (a @ b))"

text \<open>
  One pass of the loop body after \<open>keep[i] = True\<close>: the next value of \<open>order\<close>.
  The fancy indexing \<open>bboxes[order[1:]]\<close> and \<open>classes[order[1:]]\<close> raises
  \<open>IndexError\<close> when an index is past the end of the array.
\<close>

definition nms_round ::
  "box list \<Rightarrow> rat list \<Rightarrow> rat \<Rightarrow> int list option \<Rightarrow> nat list \<Rightarrow> py_error + nat list" where
  "nms_round bboxes areas iou_thresh classes order =
     (let i = hd order; rest = tl order in
      if \<not> list_all (\<lambda>j. j < length bboxes) order then Inl IndexError
      else
        let ovr = iou (bboxes ! i) (map ((!) bboxes) rest) (areas ! i) (map ((!) areas) rest);
            idxs = filter (\<lambda>k. ovr ! k \<le> iou_thresh) [0..<length ovr]
        in case truth_value classes of
             Inl e \<Rightarrow> Inl e
           | Inr False \<Rightarrow> Inr (map (\<lambda>k. order ! (k + 1)) idxs)
           | Inr True \<Rightarrow>
               (let cls = the classes in
                if \<not> list_all (\<lambda>j. j < length cls) order then Inl IndexError
                else
                  let other = filter (\<lambda>k. cls ! (rest ! k) \<noteq> cls ! i) [0..<length rest];
                      idxs = union1d idxs other
                  in Inr (map (\<lambda>k. order ! (k + 1)) idxs)))"

lemma iou_length:
  "length areas = length boxes \<Longrightarrow> length (iou t boxes ta areas) = length boxes"
  by (simp add: iou_def intersection_area_def intersection_box_def split: prod.splits)

lemma union1d_length:
  assumes "set a \<subseteq> {0..<n}" and "set b \<subseteq> {0..<n}"
  shows "length (union1d a b) \<le> n"
proof -
  have "length (union1d a b) = card (set (a @ b))"
    by (simp add: union1d_def length_remdups_card_conv)
  also have "\<dots> \<le> card {0..<n}"
    using assms by (intro card_mono) auto
  finally show ?thesis by simp
qed

lemma nms_round_shorter:
  assumes "nms_round bboxes areas iou_thresh classes order = Inr order'"
    and "order \<noteq> []"
  shows "length order' < length order"
proof -
  define rest where "rest = tl order"
  define ovr where "ovr = iou (bboxes ! hd order) (map ((!) bboxes) rest) (areas ! hd order)
                (map ((!) areas) rest)"
  define idxs where "idxs = filter (\<lambda>k. ovr ! k \<le> iou_thresh) [0..<length ovr]"
  define other where "other = filter (\<lambda>k. the classes ! (rest ! k) \<noteq> the classes ! hd order)
                              [0..<length rest]"
  have len: "length ovr = length rest" by (simp add: ovr_def iou_length)
  have sub: "set idxs \<subseteq> {0..<length rest}" "set other \<subseteq> {0..<length rest}"
    using len by (auto simp: idxs_def other_def)
  have "distinct idxs" by (simp add: idxs_def)
  then have "length idxs = card (set idxs)" by (simp add: distinct_card)
  also have "\<dots> \<le> card {0..<length rest}" using sub(1) by (intro card_mono) auto
  finally have a: "length idxs \<le> length rest" by simp
  have b: "length (union1d idxs other) \<le> length rest"
    using sub by (rule union1d_length)
  have c: "length rest < length order" using assms(2) by (cases order) (auto simp: rest_def)
  have "order' = map (\<lambda>k. order ! (k + 1)) idxs
        \<or> order' = map (\<lambda>k. order ! (k + 1)) (union1d idxs other)"
    using assms(1)
    unfolding nms_round_def Let_def rest_def [symmetric] ovr_def [symmetric]
      idxs_def [symmetric] other_def [symmetric]
    by (auto split: sum.splits bool.splits if_splits)
  then show ?thesis using a b c by auto
qed

function nms_loop ::
  "box list \<Rightarrow> rat list \<Rightarrow> rat \<Rightarrow> int list option \<Rightarrow> nat list \<Rightarrow> bool list
     \<Rightarrow> py_error + bool list" where
  "nms_loop bboxes areas iou_thresh classes order keep =
     (if length order > 1 then
        (case nms_round bboxes areas iou_thresh classes order of
           Inl e \<Rightarrow> Inl e
         | Inr order' \<Rightarrow>
             nms_loop bboxes areas iou_thresh classes order' (keep[hd order := True]))
      else Inr keep)"
  by pat_completeness auto
termination
proof (relation "measure (\<lambda>(bboxes, areas, iou_thresh, classes, order, keep). length order)")
  show "wf (measure (\<lambda>(bboxes, areas, iou_thresh, classes, order, keep). length order))"
    by simp
next
  fix bboxes areas iou_thresh classes order keep order'
  assume "1 < length order"
    and "nms_round bboxes areas iou_thresh classes order = Inr order'"
  then show "((bboxes, areas, iou_thresh, classes, order', keep[hd order := True]),
              (bboxes, areas, iou_thresh, classes, order, keep))
             \<in> measure (\<lambda>(bboxes, areas, iou_thresh, classes, order, keep). length order)"
    using nms_round_shorter [of bboxes areas iou_thresh classes order order']
    by (cases order) auto
qed

declare nms_loop.simps [simp del]

definition nms :: "box list \<Rightarrow> rat list \<Rightarrow> rat \<Rightarrow> int list option \<Rightarrow> py_error + bool list" where
  "nms bboxes scores iou_thresh classes =
     nms_loop bboxes (box_areas bboxes) iou_thresh classes (rev (argsort scores))
       (replicate (length scores) False)"

section \<open>Layer graphs: \<open>models/custom.py\<close> and \<open>horizon/models.py\<close>\<close>

text \<open>
  A module of the \<open>nn.Sequential\<close> carries the attributes that YOLOv5 attaches to it:
  \<open>m.i\<close>, an \<open>int\<close> for the modules of the detection model and a \<open>str\<close> for the
  classification heads; \<open>m.f\<close>, an \<open>int\<close> or a list of them; \<open>m.type\<close>, a string.
  \<open>conv_in_channels\<close> is \<open>m.conv.in_channels\<close> where the module has a \<open>conv\<close>
  attribute, \<open>cv1_in_channels\<close> is \<open>m.cv1.conv.in_channels\<close> where it has a
  \<open>cv1\<close>; \<open>_get_classification_heads\<close> reads them.
\<close>

datatype node_id = IntId int | StrId string

datatype from_spec = FromInt int | FromList "int list"

record layer =
  node_i :: node_id
  node_f :: from_spec
  node_type :: string
  conv_in_channels :: "int option"
  cv1_in_channels :: "int option"

subsection \<open>Cutoff resolution\<close>

text \<open>
  \<open>for i, m in enumerate(model.model)\<close>: the counter is carried along. The
  \<open>ValueError\<close> after the loop is the \<open>ConfigurationError\<close> of the specification.
\<close>

fun find_cutoff_from :: "int \<Rightarrow> layer list \<Rightarrow> py_error + int" where
  "find_cutoff_from i [] = Inl ValueError"
| "find_cutoff_from i (m # ms) =
     (if node_type m = ''models.common.SPPF'' then Inr (i - 1)
      else find_cutoff_from (i + 1) ms)"

definition find_cutoff :: "layer list \<Rightarrow> py_error + int" where
  "find_cutoff layers = find_cutoff_from 0 layers"

subsection \<open>Forward passes of \<open>Hydra\<close>\<close>

text \<open>
  The tensor engine is opaque: the output of the module at position \<open>p\<close> on the input
  \<open>v\<close> is the term \<open>Out p v\<close>. \<open>VNone\<close> is Python's \<open>None\<close>, \<open>VList\<close> the list
  that a module with several sources receives.
\<close>

datatype val = Input | Out nat val | VList "val list" | VNone

text \<open>Python's \<open>y[j]\<close>: a negative index counts from the end.\<close>

definition py_get :: "'a list \<Rightarrow> int \<Rightarrow> py_error + 'a" where
  "py_get ys j =
     (let n = int (length ys); k = (if j < 0 then n + j else j)
      in if 0 \<le> k \<and> k < n then Inr (ys ! nat k) else Inl IndexError)"

fun gather :: "val \<Rightarrow> val list \<Rightarrow> int list \<Rightarrow> py_error + val list" where
  "gather x ys [] = Inr []"
| "gather x ys (j # js) =
     (case (if j = -1 then Inr x else py_get ys j) of
        Inl e \<Rightarrow> Inl e
      | Inr v \<Rightarrow> (case gather x ys js of Inl e \<Rightarrow> Inl e | Inr vs \<Rightarrow> Inr (v # vs)))"

text \<open>
  The input of a module: \<open>x\<close> itself when \<open>m.f == -1\<close>, else
  \<open>y[m.f] if isinstance(m.f, int) else [x if j == -1 else y[j] for j in m.f]\<close>.
\<close>

definition resolve_input :: "from_spec \<Rightarrow> val \<Rightarrow> val list \<Rightarrow> py_error + val" where
  "resolve_input f x ys =
     (case f of
        FromInt j \<Rightarrow> (if j = -1 then Inr x else py_get ys j)
      | FromList js \<Rightarrow> (case gather x ys js of Inl e \<Rightarrow> Inl e | Inr vs \<Rightarrow> Inr (VList vs)))"

text \<open>Python's \<open>sub in s\<close> on strings.\<close>

fun contains :: "string \<Rightarrow> string \<Rightarrow> bool" where
  "contains sub [] = (sub = [])"
| "contains sub (c # cs) = (take (length sub) (c # cs) = sub \<or> contains sub cs)"

text \<open>\<open>m.i in self.save\<close>: a string is never a member of the set of integers.\<close>

definition in_save :: "node_id \<Rightarrow> int list \<Rightarrow> bool" where
  "in_save ident save = (case ident of IntId n \<Rightarrow> n \<in> set save | StrId _ \<Rightarrow> False)"

text \<open>
  The model object after \<open>__init__\<close>: the module list, the retain set \<open>save\<close>, the
  cutoff and the task.
\<close>

record hydra =
  model :: "layer list"
  save :: "int list"
  cutoff :: int
  task :: string

text \<open>
  The variables of a forward pass. \<open>called\<close> is not in the source: it lists the positions
  whose module was called (\<open>m(x)\<close>), in order. \<open>raised\<close> holds the exception that ended
  the pass, after which no module is visited.
\<close>

record pass =
  cur :: val
  ys :: "val list"
  x_pitch :: val
  x_theta :: val
  called :: "nat list"
  raised :: "py_error option"

definition start :: "val \<Rightarrow> pass" where
  "start x = \<lparr>cur = x, ys = [], x_pitch = VNone, x_theta = VNone, called = [], raised = None\<rparr>"

text \<open>
  The \<open>else\<close> branch of the loop body: \<open>x = m(x); y.append(x if m.i in self.save else None)\<close>.
\<close>

definition run_layer :: "int list \<Rightarrow> nat \<Rightarrow> layer \<Rightarrow> val \<Rightarrow> pass \<Rightarrow> pass" where
  "run_layer sv p m x s =
     (let x' = Out p x
      in s\<lparr>cur := x', ys := ys s @ [if in_save (node_i m) sv then x' else VNone],
            called := called s @ [p]\<rparr>)"

text \<open>
  The branches on \<open>m.type == "models.common.Classify" and "pitch" in m.i\<close>, shared by
  \<open>_horizon_once\<close> and \<open>_forward_once\<close>. \<open>"pitch" in m.i\<close> raises \<open>TypeError\<close> when
  \<open>m.i\<close> is an \<open>int\<close>. \<open>x\<close> is the input resolved just before.
\<close>

definition dispatch :: "int list \<Rightarrow> nat \<Rightarrow> layer \<Rightarrow> val \<Rightarrow> pass \<Rightarrow> pass" where
  "dispatch sv p m x s =
     (if node_type m = ''models.common.Classify'' then
        (case node_i m of
           IntId _ \<Rightarrow> s\<lparr>cur := x, raised := Some TypeError\<rparr>
         | StrId name \<Rightarrow>
             if contains ''pitch'' name then s\<lparr>cur := x, x_pitch := Out p x, called := called s @ [p]\<rparr>
             else if contains ''theta'' name
             then s\<lparr>cur := x, x_theta := Out p x, called := called s @ [p]\<rparr>
             else run_layer sv p m x s)
      else run_layer sv p m x s)"

definition forward_step :: "hydra \<Rightarrow> pass \<Rightarrow> nat \<times> layer \<Rightarrow> pass" where
  "forward_step h s pm =
     (case pm of (p, m) \<Rightarrow>
        if raised s \<noteq> None then s
        else (case resolve_input (node_f m) (cur s) (ys s) of
                Inl e \<Rightarrow> s\<lparr>raised := Some e\<rparr>
              | Inr x \<Rightarrow> dispatch (save h) p m x s))"

text \<open>
  \<open>_horizon_once\<close> first tests \<open>isinstance(m.i, int) and m.i > self.cutoff\<close> and
  continues with the next module when it holds.
\<close>

definition past_cutoff :: "hydra \<Rightarrow> layer \<Rightarrow> bool" where
  "past_cutoff h m = (case node_i m of IntId n \<Rightarrow> n > cutoff h | StrId _ \<Rightarrow> False)"

definition horizon_step :: "hydra \<Rightarrow> pass \<Rightarrow> nat \<times> layer \<Rightarrow> pass" where
  "horizon_step h s pm =
     (case pm of (p, m) \<Rightarrow>
        if raised s \<noteq> None then s
        else if past_cutoff h m then s
        else forward_step h s pm)"

text \<open>\<open>_detect_once\<close> skips every module of type \<open>Classify\<close> and calls the others.\<close>

definition detect_step :: "hydra \<Rightarrow> pass \<Rightarrow> nat \<times> layer \<Rightarrow> pass" where
  "detect_step h s pm =
     (case pm of (p, m) \<Rightarrow>
        if raised s \<noteq> None then s
        else if node_type m = ''models.common.Classify'' then s
        else (case resolve_input (node_f m) (cur s) (ys s) of
                Inl e \<Rightarrow> s\<lparr>raised := Some e\<rparr>
              | Inr x \<Rightarrow> run_layer (save h) p m x s))"

definition horizon_pass :: "hydra \<Rightarrow> val \<Rightarrow> pass" where
  "horizon_pass h x = foldl (horizon_step h) (start x) (enumerate 0 (model h))"

definition detect_pass :: "hydra \<Rightarrow> val \<Rightarrow> pass" where
  "detect_pass h x = foldl (detect_step h) (start x) (enumerate 0 (model h))"

definition forward_pass :: "hydra \<Rightarrow> val \<Rightarrow> pass" where
  "forward_pass h x = foldl (forward_step h) (start x) (enumerate 0 (model h))"

text \<open>
  What \<open>Hydra.forward\<close> returns: \<open>x\<close> alone for the task \<open>"detection"\<close>, the pair
  \<open>(x_pitch, x_theta)\<close> for \<open>"horizon"\<close>, the triple \<open>(x, x_pitch, x_theta)\<close> otherwise.
\<close>

datatype fwd_output = DetOut val | HorOut val val | BothOut val val val

definition finish :: "pass \<Rightarrow> (pass \<Rightarrow> fwd_output) \<Rightarrow> py_error + fwd_output" where
  "finish s ret = (case raised s of Some e \<Rightarrow> Inl e | None \<Rightarrow> Inr (ret s))"

definition horizon_once :: "hydra \<Rightarrow> val \<Rightarrow> py_error + fwd_output" where
  "horizon_once h x = finish (horizon_pass h x) (\<lambda>s. HorOut (x_pitch s) (x_theta s))"

definition detect_once :: "hydra \<Rightarrow> val \<Rightarrow> py_error + fwd_output" where
  "detect_once h x = finish (detect_pass h x) (\<lambda>s. DetOut (cur s))"

definition forward_once :: "hydra \<Rightarrow> val \<Rightarrow> py_error + fwd_output" where
  "forward_once h x =
     finish (forward_pass h x) (\<lambda>s. BothOut (cur s) (x_pitch s) (x_theta s))"

definition forward :: "hydra \<Rightarrow> val \<Rightarrow> py_error + fwd_output" where
  "forward h x =
     (if task h = ''detection'' then detect_once h x
      else if task h = ''horizon'' then horizon_once h x
      else forward_once h x)"

text \<open>
  A small multi-task graph as \<open>Hydra.__init__\<close> leaves it: a convolution, the \<open>SPPF\<close>
  landmark and a detection layer, followed by the two heads that read position 0.
\<close>

definition tiny_layers :: "layer list" where
  "tiny_layers =
     [\<lparr>node_i = IntId 0, node_f = FromInt (-1), node_type = ''models.common.Conv'',
       conv_in_channels = Some 3, cv1_in_channels = None\<rparr>,
      \<lparr>node_i = IntId 1, node_f = FromInt (-1), node_type = ''models.common.SPPF'',
       conv_in_channels = None, cv1_in_channels = Some 16\<rparr>,
      \<lparr>node_i = IntId 2, node_f = FromList [-1, 0], node_type = ''models.yolo.Detect'',
       conv_in_channels = None, cv1_in_channels = None\<rparr>]"

definition tiny_heads :: "layer list" where
  "tiny_heads =
     [\<lparr>node_i = StrId ''c_pitch'', node_f = FromInt 0, node_type = ''models.common.Classify'',
       conv_in_channels = None, cv1_in_channels = None\<rparr>,
      \<lparr>node_i = StrId ''c_theta'', node_f = FromInt 0, node_type = ''models.common.Classify'',
       conv_in_channels = None, cv1_in_channels = None\<rparr>]"

definition tiny_hydra :: "string \<Rightarrow> hydra" where
  "tiny_hydra t = \<lparr>model = tiny_layers @ tiny_heads, save = [0], cutoff = 0, task = t\<rparr>"

text \<open>
  The modules that the dispatch of \<open>_horizon_once\<close> and \<open>_forward_once\<close> routes to
  the pitch slot, and those it routes to the theta slot (the \<open>elif\<close>: only when
  \<open>"pitch"\<close> is not in the name).
\<close>

definition is_pitch_head :: "layer \<Rightarrow> bool" where
  "is_pitch_head m =
     (node_type m = ''models.common.Classify''
      \<and> (case node_i m of StrId name \<Rightarrow> contains ''pitch'' name | IntId _ \<Rightarrow> False))"

definition is_theta_head :: "layer \<Rightarrow> bool" where
  "is_theta_head m =
     (node_type m = ''models.common.Classify''
      \<and> (case node_i m of
            StrId name \<Rightarrow> \<not> contains ''pitch'' name \<and> contains ''theta'' name
          | IntId _ \<Rightarrow> False))"

subsection \<open>Assembly: objects and references\<close>

text \<open>
  The assembly functions work on objects that are shared by reference, so the model has a
  store. \<open>modules\<close> holds the module objects, \<open>seqs\<close> the \<open>nn.Sequential\<close> containers
  (the ordered dictionary from names to modules, as a list of pairs of a name and the
  address of a module), \<open>models\<close> the \<open>DetectionModel\<close> objects with their attributes
  \<open>model\<close> (the address of a container) and \<open>save\<close>. An address is a position in its
  list; an allocation appends. \<open>save\<close> is a Python list in a loaded detection model and
  a Python set after \<open>set(list(model.save + [cutoff]))\<close>. The weights of the modules,
  and with them the channel and class counts of a new head, are not part of the store.
\<close>

datatype save_val = SaveList "int list" | SaveSet "int set"

record det_model =
  dm_model :: nat
  dm_save :: save_val

record heap =
  modules :: "layer list"
  seqs :: "(string \<times> nat) list list"
  models :: "det_model list"

text \<open>Python's \<open>xs[:k]\<close>: a negative \<open>k\<close> counts from the end.\<close>

definition py_slice_to :: "'a list \<Rightarrow> int \<Rightarrow> 'a list" where
  "py_slice_to xs k =
     (if k < 0 then take (nat (int (length xs) + k)) xs else take (nat k) xs)"

text \<open>The module list that the model object at address \<open>a\<close> refers to.\<close>

definition graph_at :: "heap \<Rightarrow> nat \<Rightarrow> layer list" where
  "graph_at h a = map (\<lambda>(name, ma). modules h ! ma) (seqs h ! dm_model (models h ! a))"

text \<open>
  \<open>_get_classification_heads\<close>: \<open>model.model[cutoff + 1]\<close> raises \<open>IndexError\<close> out of
  range; \<open>m.conv.in_channels if hasattr(m, "conv") else m.cv1.conv.in_channels\<close> raises
  \<open>AttributeError\<close> when the module has neither. The two heads are new objects with
  \<open>i\<close>, \<open>f\<close> and \<open>type\<close> set as in the source; the result is the store with the two
  heads and their addresses.
\<close>

definition classify_head :: "string \<Rightarrow> int \<Rightarrow> layer" where
  "classify_head name cutoff' =
     \<lparr>node_i = StrId name, node_f = FromInt cutoff', node_type = ''models.common.Classify'',
      conv_in_channels = None, cv1_in_channels = None\<rparr>"

definition in_channels :: "layer \<Rightarrow> py_error + int" where
  "in_channels m =
     (case conv_in_channels m of
        Some ch \<Rightarrow> Inr ch
      | None \<Rightarrow> (case cv1_in_channels m of Some ch \<Rightarrow> Inr ch | None \<Rightarrow> Inl AttributeError))"

definition get_classification_heads :: "heap \<Rightarrow> nat \<Rightarrow> int \<Rightarrow> py_error + heap \<times> nat \<times> nat" where
  "get_classification_heads h a cutoff' =
     (case py_get (seqs h ! dm_model (models h ! a)) (cutoff' + 1) of
        Inl e \<Rightarrow> Inl e
      | Inr (name, ma) \<Rightarrow>
          (case in_channels (modules h ! ma) of
             Inl e \<Rightarrow> Inl e
           | Inr ch \<Rightarrow>
               let n = length (modules h)
               in Inr (h\<lparr>modules := modules h @ [classify_head ''c_pitch'' cutoff',
                                                  classify_head ''c_theta'' cutoff']\<rparr>,
                       n, n + 1)))"

text \<open>
  \<open>model.save = set(list(model.save + [cutoff]))\<close>: the sum of a set and a list raises
  \<open>TypeError\<close>.
\<close>

definition add_cutoff_to_save :: "save_val \<Rightarrow> int \<Rightarrow> py_error + save_val" where
  "add_cutoff_to_save sv cutoff' =
     (case sv of
        SaveList l \<Rightarrow> Inr (SaveSet (set (l @ [cutoff'])))
      | SaveSet _ \<Rightarrow> Inl TypeError)"

text \<open>
  \<open>nn.Module.add_module\<close> on a container: a name already present keeps its place and
  gets the new module, a new name goes to the end.
\<close>

definition add_module :: "heap \<Rightarrow> nat \<Rightarrow> string \<Rightarrow> nat \<Rightarrow> heap" where
  "add_module h s name ma = h\<lparr>seqs := (seqs h)[s := AList.update name ma (seqs h ! s)]\<rparr>"

text \<open>
  \<open>HorizonModel._from_detection_model\<close>: the heads, the new \<open>save\<close>, then
  \<open>model.model = model.model[:cutoff + 1]\<close>, which builds a new container over the same
  module objects and rebinds the attribute of the model object, then the two
  \<open>add_module\<close> calls on the new container.
\<close>

definition from_detection_model :: "heap \<Rightarrow> nat \<Rightarrow> int \<Rightarrow> py_error + heap" where
  "from_detection_model h a cutoff' =
     (case get_classification_heads h a cutoff' of
        Inl e \<Rightarrow> Inl e
      | Inr (h1, c_pitch, c_theta) \<Rightarrow>
          (case add_cutoff_to_save (dm_save (models h1 ! a)) cutoff' of
             Inl e \<Rightarrow> Inl e
           | Inr sv \<Rightarrow>
               let s = dm_model (models h1 ! a);
                   s' = length (seqs h1);
                   h2 = h1\<lparr>seqs := seqs h1 @ [py_slice_to (seqs h1 ! s) (cutoff' + 1)],
                           models := (models h1)[a := \<lparr>dm_model = s', dm_save = sv\<rparr>]\<rparr>;
                   h3 = add_module h2 s' ''c_pitch'' c_pitch
               in Inr (add_module h3 s' ''c_theta'' c_theta)))"

text \<open>
  \<open>Hydra._add_classification_heads\<close>: the same without the slice; the two
  \<open>add_module\<close> calls act on the container of the detection model itself.
\<close>

definition add_classification_heads :: "heap \<Rightarrow> nat \<Rightarrow> int \<Rightarrow> py_error + heap" where
  "add_classification_heads h a cutoff' =
     (case get_classification_heads h a cutoff' of
        Inl e \<Rightarrow> Inl e
      | Inr (h1, c_pitch, c_theta) \<Rightarrow>
          (case add_cutoff_to_save (dm_save (models h1 ! a)) cutoff' of
             Inl e \<Rightarrow> Inl e
           | Inr sv \<Rightarrow>
               let s = dm_model (models h1 ! a);
                   h2 = h1\<lparr>models := (models h1)[a := \<lparr>dm_model = s, dm_save = sv\<rparr>]\<rparr>;
                   h3 = add_module h2 s ''c_pitch'' c_pitch
               in Inr (add_module h3 s ''c_theta'' c_theta)))"

text \<open>\<open>_find_cutoff(model) if cutoff is None else cutoff\<close>.\<close>

definition resolve_cutoff :: "heap \<Rightarrow> nat \<Rightarrow> int option \<Rightarrow> py_error + int" where
  "resolve_cutoff h a cutoff' =
     (case cutoff' of None \<Rightarrow> find_cutoff (graph_at h a) | Some c \<Rightarrow> Inr c)"

text \<open>
  A store with the small detection model loaded, and the stores that the two assemblies
  leave behind with the cutoff 0.
\<close>

definition tiny_heap :: heap where
  "tiny_heap =
     \<lparr>modules = tiny_layers,
      seqs = [[(''0'', 0), (''1'', 1), (''2'', 2)]],
      models = [\<lparr>dm_model = 0, dm_save = SaveList [0]\<rparr>]\<rparr>"


text \<open>
  A loaded model: its references point into the store and no module of its container is
  named like a head (a loaded container names its modules \<open>"0"\<close>, \<open>"1"\<close>, ...).
\<close>

definition wf_model :: "heap \<Rightarrow> nat \<Rightarrow> bool" where
  "wf_model h a =
     (a < length (models h)
      \<and> dm_model (models h ! a) < length (seqs h)
      \<and> list_all (\<lambda>(name, ma). ma < length (modules h)) (seqs h ! dm_model (models h ! a))
      \<and> map_of (seqs h ! dm_model (models h ! a)) ''c_pitch'' = None
      \<and> map_of (seqs h ! dm_model (models h ! a)) ''c_theta'' = None)"

definition tiny_horizon_heap :: heap where
  "tiny_horizon_heap =
     \<lparr>modules = tiny_layers @ tiny_heads,
      seqs = [[(''0'', 0), (''1'', 1), (''2'', 2)],
              [(''0'', 0), (''c_pitch'', 3), (''c_theta'', 4)]],
      models = [\<lparr>dm_model = 1, dm_save = SaveSet {0}\<rparr>]\<rparr>"

definition tiny_hydra_heap :: heap where
  "tiny_hydra_heap =
     \<lparr>modules = tiny_layers @ tiny_heads,
      seqs = [[(''0'', 0), (''1'', 1), (''2'', 2), (''c_pitch'', 3), (''c_theta'', 4)]],
      models = [\<lparr>dm_model = 0, dm_save = SaveSet {0}\<rparr>]\<rparr>"


text \<open>
  The model that \<open>Hydra.__init__\<close> holds after the multi-task assembly of a loaded
  detection model: the modules of the detection model, each with its position as index
  and none of them a classification head, followed by the pitch head and the theta head,
  which read the output of the cutoff position; the cutoff is a position of the detection
  model and belongs to \<open>save\<close>.
\<close>

definition assembled :: "hydra \<Rightarrow> layer list \<Rightarrow> bool" where
  "assembled h body \<longleftrightarrow>
     model h = body @ [classify_head ''c_pitch'' (cutoff h), classify_head ''c_theta'' (cutoff h)]
     \<and> map node_i body = map (\<lambda>k. IntId (int k)) [0..<length body]
     \<and> list_all (\<lambda>m. node_type m \<noteq> ''models.common.Classify'') body
     \<and> 0 \<le> cutoff h \<and> cutoff h < int (length body)
     \<and> cutoff h \<in> set (save h)"

section \<open>Box arrays shared by reference: \<open>horizon/yolotrt/postprocessing.py\<close>
  and \<open>hybrids/inference/ahoy.py\<close>\<close>

text \<open>
  The coordinate transforms and the presentation adapters act on NumPy arrays that the
  caller keeps a reference to, so the model has a store of arrays. An array is
  two-dimensional, with its number of columns and its rows; an address is a position in
  the store. The elements are rationals: rounding is not modelled, and a NumPy division by
  zero (which gives \<open>inf\<close> or \<open>nan\<close> and does not raise) is outside the model.

  A \<open>view\<close> is what \<open>a[:, :k]\<close> gives: the first \<open>k\<close> columns of the array at an address,
  sharing its memory; the array itself is the view of all its columns. A \<open>column\<close> is
  \<open>a[:, j]\<close> and a \<open>row_ref\<close> is one row of a view, as the iteration \<open>for b in bbs\<close>
  yields it; both share the memory of the array too.
\<close>

record ndarray =
  ncols :: nat
  rows :: "rat list list"

type_synonym store = "ndarray list"

record view =
  view_addr :: nat
  view_width :: nat

record column =
  col_addr :: nat
  col_index :: nat

record row_ref =
  row_of :: view
  row_index :: nat

text \<open>
  \<open>v[:, :k]\<close> never raises and gives a view; \<open>v[:, j]\<close> raises \<open>IndexError\<close> when the
  view has no column \<open>j\<close>.
\<close>

definition slice_cols :: "view \<Rightarrow> nat \<Rightarrow> view" where
  "slice_cols v k = \<lparr>view_addr = view_addr v, view_width = min k (view_width v)\<rparr>"

definition select_col :: "view \<Rightarrow> nat \<Rightarrow> py_error + column" where
  "select_col v j =
     (if j < view_width v then Inr \<lparr>col_addr = view_addr v, col_index = j\<rparr>
      else Inl IndexError)"

text \<open>The values seen through a column reference.\<close>

definition read_col :: "store \<Rightarrow> column \<Rightarrow> rat list" where
  "read_col s c = map (\<lambda>r. r ! col_index c) (rows (s ! col_addr c))"

text \<open>
  Indexing with a list of columns, \<open>v[:, js]\<close>: reading gives a new array (a copy, here a
  value) and raises \<open>IndexError\<close> when an index is out of the view; assigning,
  \<open>v[:, js] = vals\<close>, writes into the array the view shares. The augmented assignment
  \<open>v[:, js] op= c\<close> is the read, the operation on the copy and the assignment, and the
  same on a slice, \<open>v[:, :k] op= c\<close>, works on the view directly.
\<close>

definition get_cols :: "store \<Rightarrow> view \<Rightarrow> nat list \<Rightarrow> py_error + rat list list" where
  "get_cols s v js =
     (if list_all (\<lambda>j. j < view_width v) js
      then Inr (map (\<lambda>r. map (\<lambda>j. r ! j) js) (rows (s ! view_addr v)))
      else Inl IndexError)"

definition set_cols :: "store \<Rightarrow> view \<Rightarrow> nat list \<Rightarrow> rat list list \<Rightarrow> store" where
  "set_cols s v js vals =
     s[view_addr v := (s ! view_addr v)
        \<lparr>rows := map (\<lambda>(r, xs). foldl (\<lambda>r (j, x). r[j := x]) r (zip js xs))
                    (zip (rows (s ! view_addr v)) vals)\<rparr>]"

definition inplace_cols ::
  "(rat \<Rightarrow> rat) \<Rightarrow> store \<Rightarrow> view \<Rightarrow> nat list \<Rightarrow> py_error + store" where
  "inplace_cols f s v js =
     (case get_cols s v js of
        Inl e \<Rightarrow> Inl e
      | Inr vals \<Rightarrow> Inr (set_cols s v js (map (map f) vals)))"

definition inplace_view :: "(rat \<Rightarrow> rat) \<Rightarrow> store \<Rightarrow> view \<Rightarrow> store" where
  "inplace_view f s v =
     s[view_addr v := (s ! view_addr v)
        \<lparr>rows := map (\<lambda>r. map f (take (view_width v) r) @ drop (view_width v) r)
                    (rows (s ! view_addr v))\<rparr>]"

text \<open>
  \<open>xyxy_to_xyxyn\<close> and \<open>xyxyn_to_xyxy\<close>: \<open>h, w = shape\<close>, the two augmented assignments
  and \<open>return bboxes\<close>. The result pairs the store the call leaves behind, also when it
  raises, with the exception or the returned reference.
\<close>

definition xyxy_to_xyxyn :: "store \<Rightarrow> view \<Rightarrow> int \<times> int \<Rightarrow> store \<times> (py_error + view)" where
  "xyxy_to_xyxyn s bboxes shape =
     (case shape of (h, w) \<Rightarrow>
        (case inplace_cols (\<lambda>x. x / of_int w) s bboxes [0, 2] of
           Inl e \<Rightarrow> (s, Inl e)
         | Inr s1 \<Rightarrow>
            (case inplace_cols (\<lambda>x. x / of_int h) s1 bboxes [1, 3] of
               Inl e \<Rightarrow> (s1, Inl e)
             | Inr s2 \<Rightarrow> (s2, Inr bboxes))))"

definition xyxyn_to_xyxy :: "store \<Rightarrow> view \<Rightarrow> int \<times> int \<Rightarrow> store \<times> (py_error + view)" where
  "xyxyn_to_xyxy s bboxes shape =
     (case shape of (h, w) \<Rightarrow>
        (case inplace_cols (\<lambda>x. x * of_int w) s bboxes [0, 2] of
           Inl e \<Rightarrow> (s, Inl e)
         | Inr s1 \<Rightarrow>
            (case inplace_cols (\<lambda>x. x * of_int h) s1 bboxes [1, 3] of
               Inl e \<Rightarrow> (s1, Inl e)
             | Inr s2 \<Rightarrow> (s2, Inr bboxes))))"

text \<open>
  \<open>a.clip(a_min, a_max)\<close> is \<open>minimum(a_max, maximum(a, a_min))\<close>. \<open>clip_boxes\<close> has no
  \<open>return\<close>: its result is \<open>None\<close>, here the unit value.
\<close>

definition clip :: "rat \<Rightarrow> rat \<Rightarrow> rat \<Rightarrow> rat" where
  "clip a_min a_max x = min a_max (max x a_min)"

definition clip_boxes :: "store \<Rightarrow> view \<Rightarrow> int \<times> int \<Rightarrow> store \<times> (py_error + unit)" where
  "clip_boxes s boxes shape =
     (case get_cols s boxes [0, 2] of
        Inl e \<Rightarrow> (s, Inl e)
      | Inr xcols \<Rightarrow>
         (let s1 = set_cols s boxes [0, 2] (map (map (clip 0 (of_int (snd shape)))) xcols) in
          case get_cols s1 boxes [1, 3] of
            Inl e \<Rightarrow> (s1, Inl e)
          | Inr ycols \<Rightarrow>
             (set_cols s1 boxes [1, 3] (map (map (clip 0 (of_int (fst shape)))) ycols), Inr ())))"

text \<open>
  \<open>scale_boxes\<close>. The two quotients of \<open>gain\<close> are divisions of Python numbers, which
  raise \<open>ZeroDivisionError\<close>; the shapes are pairs of integers, \<open>(height, width)\<close>.
\<close>

definition py_truediv :: "int \<Rightarrow> int \<Rightarrow> py_error + rat" where
  "py_truediv a b = (if b = 0 then Inl ZeroDivisionError else Inr (of_int a / of_int b))"

definition scale_boxes ::
  "store \<Rightarrow> view \<Rightarrow> int \<times> int \<Rightarrow> int \<times> int \<Rightarrow> store \<times> (py_error + view)" where
  "scale_boxes s bboxes from_shape to_shape =
     (case py_truediv (fst from_shape) (fst to_shape) of
        Inl e \<Rightarrow> (s, Inl e)
      | Inr g0 \<Rightarrow>
     (case py_truediv (snd from_shape) (snd to_shape) of
        Inl e \<Rightarrow> (s, Inl e)
      | Inr g1 \<Rightarrow>
     (let gain = min g0 g1;
          pad = ((of_int (snd from_shape) - of_int (snd to_shape) * gain) / 2,
                 (of_int (fst from_shape) - of_int (fst to_shape) * gain) / 2)
      in case inplace_cols (\<lambda>x. x - fst pad) s bboxes [0, 2] of
           Inl e \<Rightarrow> (s, Inl e)
         | Inr s1 \<Rightarrow>
        (case inplace_cols (\<lambda>x. x - snd pad) s1 bboxes [1, 3] of
           Inl e \<Rightarrow> (s1, Inl e)
         | Inr s2 \<Rightarrow>
        (let s3 = inplace_view (\<lambda>x. x / gain) s2 (slice_cols bboxes 4) in
         case clip_boxes s3 bboxes to_shape of
           (s4, Inl e) \<Rightarrow> (s4, Inl e)
         | (s4, Inr u) \<Rightarrow> (s4, Inr bboxes))))))"

subsection \<open>Presentation adapters of \<open>AHOYv5\<close>\<close>

text \<open>
  \<open>ahoy.py\<close> imports \<open>xyxy_to_xyxyn\<close> from \<open>hybrids/inference/postprocessing.py\<close>,
  which is not among the sources. The adapters therefore take the imported function as
  their first argument, \<open>imported\<close>: any function from a store, a reference to boxes and
  a shape to the store it leaves behind and the exception or the reference it returns.

  A proposal of \<open>to_tf\<close> holds the reordered boxes, a new array, and the score and class
  columns, which are views of the detections. An entry of \<open>to_qa\<close> is the list
  \<open>[b, cls_map[c], int(c), s]\<close>, with \<open>b\<close> a row of the box view and \<open>s\<close>, \<open>c\<close> numbers.
\<close>

type_synonym normalizer = "store \<Rightarrow> view \<Rightarrow> int \<times> int \<Rightarrow> store \<times> (py_error + view)"

record tf_proposal =
  detection_boxes :: "rat list list"
  detection_scores :: column
  detection_classes :: column
  num_detections :: nat

record qa_entry =
  qa_box :: row_ref
  qa_name :: string
  qa_id :: int
  qa_score :: rat

datatype mode_output =
  TF "tf_proposal list"
| QA "qa_entry list list"
| Raw "view list" "column list" "column list"

text \<open>A list comprehension whose element expression can raise stops at the first exception.\<close>

fun traverse :: "('a \<Rightarrow> py_error + 'b) \<Rightarrow> 'a list \<Rightarrow> py_error + 'b list" where
  "traverse f [] = Inr []"
| "traverse f (x # xs) =
     (case f x of
        Inl e \<Rightarrow> Inl e
      | Inr y \<Rightarrow> (case traverse f xs of Inl e \<Rightarrow> Inl e | Inr rest \<Rightarrow> Inr (y # rest)))"

text \<open>
  \<open>to_tf\<close>: the loop over \<open>zip(bboxes, scores, classes)\<close>; \<open>bbs[:, [1, 0, 3, 2]]\<close> is a
  copy and \<open>len(bbs)\<close> its number of rows.
\<close>

fun to_tf_loop ::
  "normalizer \<Rightarrow> store \<Rightarrow> (view \<times> column \<times> column) list \<Rightarrow> int \<times> int
     \<Rightarrow> store \<times> (py_error + tf_proposal list)" where
  "to_tf_loop imported s [] orig_shape = (s, Inr [])"
| "to_tf_loop imported s ((bbs, scs, cls) # rest) orig_shape =
     (case imported s bbs orig_shape of
        (s1, Inl e) \<Rightarrow> (s1, Inl e)
      | (s1, Inr bbs1) \<Rightarrow>
         (case get_cols s1 bbs1 [1, 0, 3, 2] of
            Inl e \<Rightarrow> (s1, Inl e)
          | Inr bbs2 \<Rightarrow>
             (case to_tf_loop imported s1 rest orig_shape of
                (s2, Inl e) \<Rightarrow> (s2, Inl e)
              | (s2, Inr proposals) \<Rightarrow>
                 (s2, Inr (\<lparr>detection_boxes = bbs2, detection_scores = scs,
                            detection_classes = cls, num_detections = length bbs2\<rparr>
                           # proposals)))))"

definition to_tf ::
  "normalizer \<Rightarrow> store \<Rightarrow> view list \<Rightarrow> column list \<Rightarrow> column list \<Rightarrow> int \<times> int
     \<Rightarrow> store \<times> (py_error + tf_proposal list)" where
  "to_tf imported s bboxes scores classes orig_shape =
     to_tf_loop imported s (zip bboxes (zip scores classes)) orig_shape"

text \<open>
  \<open>to_qa\<close>: \<open>int(c)\<close> truncates towards zero; \<open>cls_map[c]\<close> raises \<open>KeyError\<close> for a class
  that is not a key; \<open>not cls_map\<close> holds for \<open>None\<close> and for the empty dictionary. The
  class map is a list of pairs of a key and a name, its keys numbers.
\<close>

definition py_int :: "rat \<Rightarrow> int" where
  "py_int c = (if 0 \<le> c then \<lfloor>c\<rfloor> else \<lceil>c\<rceil>)"

definition qa_rows ::
  "store \<Rightarrow> view \<Rightarrow> column \<Rightarrow> column \<Rightarrow> (rat \<times> string) list \<Rightarrow> py_error + qa_entry list" where
  "qa_rows s bbs scs cls cls_map =
     traverse
       (\<lambda>(b, sc, c).
          case map_of cls_map c of
            None \<Rightarrow> Inl KeyError
          | Some name \<Rightarrow>
             Inr \<lparr>qa_box = \<lparr>row_of = bbs, row_index = b\<rparr>, qa_name = name,
                  qa_id = py_int c, qa_score = sc\<rparr>)
       (zip [0..<length (rows (s ! view_addr bbs))] (zip (read_col s scs) (read_col s cls)))"

fun to_qa_loop ::
  "normalizer \<Rightarrow> store \<Rightarrow> (view \<times> column \<times> column) list \<Rightarrow> int \<times> int
     \<Rightarrow> (rat \<times> string) list \<Rightarrow> store \<times> (py_error + qa_entry list list)" where
  "to_qa_loop imported s [] orig_shape cls_map = (s, Inr [])"
| "to_qa_loop imported s ((bbs, scs, cls) # rest) orig_shape cls_map =
     (case imported s bbs orig_shape of
        (s1, Inl e) \<Rightarrow> (s1, Inl e)
      | (s1, Inr bbs1) \<Rightarrow>
         (case qa_rows s1 bbs1 scs cls cls_map of
            Inl e \<Rightarrow> (s1, Inl e)
          | Inr p \<Rightarrow>
             (case to_qa_loop imported s1 rest orig_shape cls_map of
                (s2, Inl e) \<Rightarrow> (s2, Inl e)
              | (s2, Inr proposals) \<Rightarrow> (s2, Inr (p # proposals)))))"

definition to_qa ::
  "normalizer \<Rightarrow> store \<Rightarrow> view list \<Rightarrow> column list \<Rightarrow> column list \<Rightarrow> int \<times> int
     \<Rightarrow> (rat \<times> string) list option \<Rightarrow> store \<times> (py_error + qa_entry list list)" where
  "to_qa imported s bboxes scores classes orig_shape cls_map =
     (case cls_map of
        None \<Rightarrow> (s, Inl ValueError)
      | Some m \<Rightarrow>
         if m = [] then (s, Inl ValueError)
         else to_qa_loop imported s (zip bboxes (zip scores classes)) orig_shape m)"

text \<open>
  \<open>to_mode\<close>: the three list comprehensions build views of each detection array, then
  the adapter for the mode is called; any other mode returns the views.
\<close>

definition to_mode ::
  "normalizer \<Rightarrow> store \<Rightarrow> view list \<Rightarrow> string \<Rightarrow> int \<times> int
     \<Rightarrow> (rat \<times> string) list option \<Rightarrow> store \<times> (py_error + mode_output)" where
  "to_mode imported s dets output_mode orig_shape cls_map =
     (let bboxes = map (\<lambda>det. slice_cols det 4) dets in
      case traverse (\<lambda>det. select_col det 4) dets of
        Inl e \<Rightarrow> (s, Inl e)
      | Inr scores \<Rightarrow>
     (case traverse (\<lambda>det. select_col det 5) dets of
        Inl e \<Rightarrow> (s, Inl e)
      | Inr classes \<Rightarrow>
         if output_mode = ''tf''
         then (case to_tf imported s bboxes scores classes orig_shape of
                 (s1, Inl e) \<Rightarrow> (s1, Inl e)
               | (s1, Inr proposals) \<Rightarrow> (s1, Inr (TF proposals)))
         else if output_mode = ''qa''
         then (case to_qa imported s bboxes scores classes orig_shape cls_map of
                 (s1, Inl e) \<Rightarrow> (s1, Inl e)
               | (s1, Inr proposals) \<Rightarrow> (s1, Inr (QA proposals)))
         else (s, Inr (Raw bboxes scores classes))))"

text \<open>
  Two detection arrays with rows \<open>x1, y1, x2, y2, score, class\<close>, the same arrays after
  normalization by the shape \<open>(100, 200)\<close>, and a class map.
\<close>

definition two_dets :: store where
  "two_dets =
     [\<lparr>ncols = 6, rows = [[100, 50, 200, 150, 9/10, 2], [0, 0, 50, 100, 1/2, 0]]\<rparr>,
      \<lparr>ncols = 6, rows = [[20, 10, 40, 30, 4/5, 2]]\<rparr>]"

definition det_view :: "nat \<Rightarrow> view" where
  "det_view a = \<lparr>view_addr = a, view_width = 6\<rparr>"

definition two_dets_normalized :: store where
  "two_dets_normalized =
     [\<lparr>ncols = 6, rows = [[1/2, 1/2, 1, 3/2, 9/10, 2], [0, 0, 1/4, 1, 1/2, 0]]\<rparr>,
      \<lparr>ncols = 6, rows = [[1/10, 1/10, 1/5, 3/10, 4/5, 2]]\<rparr>]"

definition two_classes :: "(rat \<times> string) list" where
  "two_classes = [(0, ''boat''), (2, ''buoy'')]"

text \<open>
  An array of two boxes in a letterboxed \<open>640 \<times> 640\<close> frame, some of whose coordinates
  fall outside the image of shape \<open>(100, 200)\<close> it was made from, and the view of it.
\<close>

definition letterboxed :: store where
  "letterboxed = [\<lparr>ncols = 4, rows = [[32, 192, 672, 480], [-32, 0, 64, 320]]\<rparr>]"

definition box_view :: view where
  "box_view = \<lparr>view_addr = 0, view_width = 4\<rparr>"


text \<open>
  A view is valid in a store when its array is there, has at least the columns of the
  view, and every row has the array's number of columns. The following functions say
  what happens to one row of the array under each transform, and to the store.
\<close>

definition valid_view :: "store \<Rightarrow> view \<Rightarrow> bool" where
  "valid_view s v \<longleftrightarrow>
     view_addr v < length s \<and> view_width v \<le> ncols (s ! view_addr v) \<and>
     list_all (\<lambda>r. length r = ncols (s ! view_addr v)) (rows (s ! view_addr v))"

definition map_rows :: "(rat list \<Rightarrow> rat list) \<Rightarrow> store \<Rightarrow> nat \<Rightarrow> store" where
  "map_rows f s a = s[a := (s ! a)\<lparr>rows := map f (rows (s ! a))\<rparr>]"

definition normalized :: "int \<times> int \<Rightarrow> rat list \<Rightarrow> rat list" where
  "normalized shape r =
     r[0 := r ! 0 / of_int (snd shape), 1 := r ! 1 / of_int (fst shape),
       2 := r ! 2 / of_int (snd shape), 3 := r ! 3 / of_int (fst shape)]"

definition denormalized :: "int \<times> int \<Rightarrow> rat list \<Rightarrow> rat list" where
  "denormalized shape r =
     r[0 := r ! 0 * of_int (snd shape), 1 := r ! 1 * of_int (fst shape),
       2 := r ! 2 * of_int (snd shape), 3 := r ! 3 * of_int (fst shape)]"

text \<open>
  A coordinate brought into the range from 0 to \<open>limit\<close>, written by cases; a negative
  \<open>limit\<close> wins over the lower bound, as it does in NumPy.
\<close>

definition bounded :: "rat \<Rightarrow> rat \<Rightarrow> rat" where
  "bounded limit x =
     (if limit < 0 then limit else if x < 0 then 0 else if limit < x then limit else x)"

definition clipped :: "int \<times> int \<Rightarrow> rat list \<Rightarrow> rat list" where
  "clipped shape r =
     r[0 := bounded (of_int (snd shape)) (r ! 0), 1 := bounded (of_int (fst shape)) (r ! 1),
       2 := bounded (of_int (snd shape)) (r ! 2), 3 := bounded (of_int (fst shape)) (r ! 3)]"

text \<open>The four box coordinates of a row lie within the image of the given shape.\<close>

definition in_frame :: "int \<times> int \<Rightarrow> rat list \<Rightarrow> bool" where
  "in_frame shape r \<longleftrightarrow>
     0 \<le> r ! 0 \<and> r ! 0 \<le> of_int (snd shape) \<and> 0 \<le> r ! 1 \<and> r ! 1 \<le> of_int (fst shape) \<and>
     0 \<le> r ! 2 \<and> r ! 2 \<le> of_int (snd shape) \<and> 0 \<le> r ! 3 \<and> r ! 3 \<le> of_int (fst shape)"

definition gain_of :: "int \<times> int \<Rightarrow> int \<times> int \<Rightarrow> rat" where
  "gain_of from_shape to_shape =
     min (of_int (fst from_shape) / of_int (fst to_shape))
         (of_int (snd from_shape) / of_int (snd to_shape))"

definition rescaled :: "int \<times> int \<Rightarrow> int \<times> int \<Rightarrow> rat list \<Rightarrow> rat list" where
  "rescaled from_shape to_shape r =
     (let gain = gain_of from_shape to_shape;
          pad_x = (of_int (snd from_shape) - of_int (snd to_shape) * gain) / 2;
          pad_y = (of_int (fst from_shape) - of_int (fst to_shape) * gain) / 2
      in r[0 := bounded (of_int (snd to_shape)) ((r ! 0 - pad_x) / gain),
           1 := bounded (of_int (fst to_shape)) ((r ! 1 - pad_y) / gain),
           2 := bounded (of_int (snd to_shape)) ((r ! 2 - pad_x) / gain),
           3 := bounded (of_int (fst to_shape)) ((r ! 3 - pad_y) / gain)])"

definition normalize_all :: "int \<times> int \<Rightarrow> store \<Rightarrow> nat list \<Rightarrow> store" where
  "normalize_all shape s addrs = foldl (\<lambda>s a. map_rows (normalized shape) s a) s addrs"

section \<open>Properties of the box geometry\<close>

text \<open>
  What the composition of the two conversions returns, for every list of boxes: the width
  and the height come back, the centre comes back as the top-left corner.
\<close>

lemma xyxy_to_xywh_after_cxcywh_to_xyxy:
  "xyxy_to_xywh (cxcywh_to_xyxy bboxes) =
     map (\<lambda>(center_x, center_y, width, height).
            (center_x - width / 2, center_y - height / 2, width, height)) bboxes"
  by (induction bboxes) (auto simp: xyxy_to_xywh_def cxcywh_to_xyxy_def)

text \<open>
  C2: converting a centre-form box to corners and back with \<open>xyxy_to_xywh\<close> should
  return the box, and the first sentence of the docstring of \<open>xyxy_to_xywh\<close> promises the
  form \<open>(center_x, center_y, width, height)\<close>. The code returns the top-left corner in
  place of the centre: the box with centre \<open>(5, 5)\<close>, width 2 and height 4 has the corners
  \<open>(4, 3, 6, 7)\<close> and comes back as \<open>(4, 3, 2, 4)\<close>. Every number involved is exact in
  \<open>float32\<close>, and the centre is off by half the width and half the height, which no
  rounding tolerance covers.
\<close>

theorem xyxy_to_xywh_returns_corner_for_centre:
  "cxcywh_to_xyxy [(5, 5, 2, 4)] = [(4, 3, 6, 7)]
   \<and> xyxy_to_xywh (cxcywh_to_xyxy [(5, 5, 2, 4)]) = [(4, 3, 2, 4)]
   \<and> xyxy_to_xywh (cxcywh_to_xyxy [(5, 5, 2, 4)]) \<noteq> [(5, 5, 2, 4)]"
  by (simp add: xyxy_to_xywh_def cxcywh_to_xyxy_def)

text \<open>
  C3: the overlap that \<open>nms\<close> computes for the box \<open>(0, 0, 10, 10)\<close> against an equal
  box. The intersection counts pixels inclusively (\<open>11 * 11 = 121\<close>), the area table of
  \<open>nms\<close> does not (\<open>10 * 10 = 100\<close>), and the quotient is \<open>121 / 79\<close>, above 1.
\<close>

theorem iou_mixes_area_conventions:
  "box_areas [(0, 0, 10, 10)] = [100]
   \<and> intersection_area (0, 0, 10, 10) [(0, 0, 10, 10)] = [121]
   \<and> iou (0, 0, 10, 10) [(0, 0, 10, 10)] 100 [100] = [121 / 79]"
  by (simp add: box_areas_def intersection_area_def intersection_box_def iou_def)

section \<open>Properties of the suppression loop\<close>

text \<open>
  C1: the loop runs while more than one candidate is left, so the last candidate is
  never marked. With a single box the loop body never runs and the mask is all false.
\<close>

theorem nms_single_box_not_kept:
  "nms [b] [s] iou_thresh classes = Inr [False]"
  by (simp add: nms_def argsort_def nms_loop.simps)

text \<open>
  C4: two overlapping boxes of different classes, with the class array supplied. The claim
  keeps both; the code raises \<open>ValueError\<close> at \<open>if classes:\<close>.
\<close>

theorem nms_with_classes_raises:
  "nms [(0, 0, 10, 10), (1, 1, 11, 11)] [9 / 10, 8 / 10] (3 / 10) (Some [0, 1])
     = Inl ValueError"
  by code_simp

text \<open>
  C5: three boxes, the first two equal and one pixel wide. Their overlap as the code
  computes it is \<open>4 / (1 + 1 - 4) = -2\<close>, below every threshold, and both are kept.
\<close>

theorem nms_keeps_equal_boxes:
  "nms [(0, 0, 1, 1), (0, 0, 1, 1), (5, 5, 6, 6)] [9 / 10, 8 / 10, 7 / 10] (1 / 2) None
     = Inr [True, True, False]"
  by code_simp

section \<open>Properties of the layer graph\<close>

lemma find_cutoff_from_first:
  "k < length ms \<Longrightarrow> node_type (ms ! k) = ''models.common.SPPF''
   \<Longrightarrow> (\<forall>j<k. node_type (ms ! j) \<noteq> ''models.common.SPPF'')
   \<Longrightarrow> find_cutoff_from i ms = Inr (i + int k - 1)"
proof (induction ms arbitrary: i k)
  case Nil
  then show ?case by simp
next
  case (Cons m ms)
  show ?case
  proof (cases k)
    case 0
    with Cons.prems show ?thesis by simp
  next
    case (Suc k')
    from Cons.prems Suc have hd: "node_type m \<noteq> ''models.common.SPPF''" by auto
    have "find_cutoff_from (i + 1) ms = Inr (i + 1 + int k' - 1)"
    proof (rule Cons.IH)
      show "k' < length ms" using Cons.prems Suc by simp
      show "node_type (ms ! k') = ''models.common.SPPF''" using Cons.prems Suc by simp
      show "\<forall>j<k'. node_type (ms ! j) \<noteq> ''models.common.SPPF''"
        using Cons.prems(3) Suc by auto
    qed
    with hd Suc show ?thesis by simp
  qed
qed

lemma find_cutoff_from_none:
  "list_all (\<lambda>m. node_type m \<noteq> ''models.common.SPPF'') ms
   \<Longrightarrow> find_cutoff_from i ms = Inl ValueError"
  by (induction ms arbitrary: i) auto

text \<open>
  C7: with no cutoff supplied, \<open>_find_cutoff\<close> returns \<open>k - 1\<close> for the first position
  \<open>k\<close> whose module has the type \<open>models.common.SPPF\<close>, and raises \<open>ValueError\<close>
  (the specification's \<open>ConfigurationError\<close>) when no module has it.
\<close>

theorem find_cutoff_landmark:
  "(k < length layers \<and> node_type (layers ! k) = ''models.common.SPPF''
      \<and> (\<forall>j<k. node_type (layers ! j) \<noteq> ''models.common.SPPF'')
      \<longrightarrow> find_cutoff layers = Inr (int k - 1))
   \<and> (list_all (\<lambda>m. node_type m \<noteq> ''models.common.SPPF'') layers
      \<longrightarrow> find_cutoff layers = Inl ValueError)"
  using find_cutoff_from_first [of k layers 0] find_cutoff_from_none [of layers 0]
  by (simp add: find_cutoff_def)

theorem find_cutoff_landmark_witness:
  "find_cutoff tiny_layers = Inr 0 \<and> find_cutoff (take 1 tiny_layers) = Inl ValueError"
proof -
  have a: "1 < length tiny_layers \<and> node_type (tiny_layers ! 1) = ''models.common.SPPF''
      \<and> (\<forall>j<1. node_type (tiny_layers ! j) \<noteq> ''models.common.SPPF'')"
    by (simp add: tiny_layers_def)
  have b: "list_all (\<lambda>m. node_type m \<noteq> ''models.common.SPPF'') (take 1 tiny_layers)"
    by (simp add: tiny_layers_def)
  show ?thesis
    using a b find_cutoff_landmark [of 1 tiny_layers] find_cutoff_landmark [of 0 "take 1 tiny_layers"]
    by simp
qed

lemma horizon_step_called:
  "set (called (horizon_step h s (p, m)))
     \<subseteq> set (called s) \<union> (if past_cutoff h m then {} else {p})"
  by (auto simp: horizon_step_def forward_step_def dispatch_def run_layer_def Let_def
           split: sum.splits node_id.splits if_splits)

lemma horizon_fold_called:
  "set (called (foldl (horizon_step h) s pms))
     \<subseteq> set (called s) \<union> {p. \<exists>m. (p, m) \<in> set pms \<and> \<not> past_cutoff h m}"
proof (induction pms arbitrary: s)
  case Nil
  then show ?case by simp
next
  case (Cons pm pms)
  obtain p m where pm: "pm = (p, m)" by (cases pm)
  show ?case
    using Cons.IH [of "horizon_step h s (p, m)"] horizon_step_called [of h s p m]
    by (auto simp: pm split: if_splits)
qed

text \<open>
  C8, as the specification states it: in the horizon task no position past the cutoff is
  computed. In the small graph the cutoff is 0 and the head at position 3 is called.
\<close>

theorem horizon_runs_head_past_cutoff:
  "cutoff (tiny_hydra ''horizon'') < 3
   \<and> 3 \<in> set (called (horizon_pass (tiny_hydra ''horizon'') Input))"
  by code_simp

lemma fold_raised_before:
  assumes stuck: "\<And>s pm. raised s \<noteq> None \<Longrightarrow> step s pm = s"
    and "raised (foldl step s pms) = None"
  shows "raised s = None"
proof (rule ccontr)
  assume n: "raised s \<noteq> None"
  have "foldl step s pms = s"
    using n by (induction pms) (simp_all add: stuck)
  with assms(2) n show False by simp
qed

lemma horizon_step_called_exact:
  assumes "raised (horizon_step h s (p, m)) = None"
  shows "called (horizon_step h s (p, m)) = called s @ (if past_cutoff h m then [] else [p])"
  using assms
  by (auto simp: horizon_step_def forward_step_def dispatch_def run_layer_def Let_def
           split: sum.splits node_id.splits if_splits)

lemma horizon_fold_called_exact:
  assumes "raised (foldl (horizon_step h) s pms) = None"
  shows "called (foldl (horizon_step h) s pms)
           = called s @ map fst (filter (\<lambda>pm. \<not> past_cutoff h (snd pm)) pms)"
  using assms
proof (induction pms arbitrary: s)
  case Nil
  then show ?case by simp
next
  case (Cons pm pms)
  obtain p m where pm: "pm = (p, m)" by (cases pm)
  have r: "raised (horizon_step h s (p, m)) = None"
  proof (rule fold_raised_before [of "horizon_step h" _ pms])
    show "raised (foldl (horizon_step h) (horizon_step h s (p, m)) pms) = None"
      using Cons.prems by (simp add: pm)
  qed (simp add: horizon_step_def split: prod.splits)
  show ?case
    using Cons.IH [of "horizon_step h s (p, m)"] Cons.prems horizon_step_called_exact [OF r]
    by (simp add: pm)
qed

lemma tiny_horizon_completes: "raised (horizon_pass (tiny_hydra ''horizon'') Input) = None"
  by code_simp

text \<open>
  C8, amended: the test of \<open>_horizon_once\<close> is on the module's own index \<open>m.i\<close> and
  only when it is an \<open>int\<close>. A module whose integer index exceeds the cutoff is never
  called, whatever happens in the pass. In a pass that ends without an exception every
  other module is called: those whose integer index is at most the cutoff, and those
  whose index is a string, which are the classification heads at the positions past the
  cutoff.
\<close>

theorem horizon_skips_integer_indices_past_cutoff:
  assumes "p < length (model h)"
  shows "(node_i (model h ! p) = IntId n \<and> cutoff h < n
            \<longrightarrow> p \<notin> set (called (horizon_pass h x)))
       \<and> (node_i (model h ! p) = IntId n \<and> n \<le> cutoff h \<and> raised (horizon_pass h x) = None
            \<longrightarrow> p \<in> set (called (horizon_pass h x)))
       \<and> (node_i (model h ! p) = StrId name \<and> raised (horizon_pass h x) = None
            \<longrightarrow> p \<in> set (called (horizon_pass h x)))"
proof (intro conjI impI)
  assume a: "node_i (model h ! p) = IntId n \<and> cutoff h < n"
  show "p \<notin> set (called (horizon_pass h x))"
  proof
    assume "p \<in> set (called (horizon_pass h x))"
    then obtain m where "(p, m) \<in> set (enumerate 0 (model h))" and "\<not> past_cutoff h m"
      using horizon_fold_called [of h "start x" "enumerate 0 (model h)"]
      by (auto simp: horizon_pass_def start_def)
    then show False using a by (auto simp: in_set_enumerate_eq past_cutoff_def)
  qed
next
  have pos: "(p, model h ! p) \<in> set (enumerate 0 (model h))"
    using assms by (simp add: in_set_enumerate_eq)
  have run: "p \<in> set (called (horizon_pass h x))"
    if "raised (horizon_pass h x) = None" and "\<not> past_cutoff h (model h ! p)"
  proof -
    have "called (horizon_pass h x)
            = map fst (filter (\<lambda>pm. \<not> past_cutoff h (snd pm)) (enumerate 0 (model h)))"
      using horizon_fold_called_exact [of h "start x" "enumerate 0 (model h)"] that(1)
      by (simp add: horizon_pass_def start_def)
    moreover have "(p, model h ! p)
            \<in> set (filter (\<lambda>pm. \<not> past_cutoff h (snd pm)) (enumerate 0 (model h)))"
      using pos that(2) by simp
    ultimately show ?thesis by force
  qed
  {
    assume "node_i (model h ! p) = IntId n \<and> n \<le> cutoff h \<and> raised (horizon_pass h x) = None"
    then show "p \<in> set (called (horizon_pass h x))"
      by (intro run) (simp_all add: past_cutoff_def)
  }
  {
    assume "node_i (model h ! p) = StrId name \<and> raised (horizon_pass h x) = None"
    then show "p \<in> set (called (horizon_pass h x))"
      by (intro run) (simp_all add: past_cutoff_def)
  }
qed

theorem horizon_skips_integer_indices_past_cutoff_witness:
  "raised (horizon_pass (tiny_hydra ''horizon'') Input) = None
   \<and> 2 \<notin> set (called (horizon_pass (tiny_hydra ''horizon'') Input))
   \<and> 0 \<in> set (called (horizon_pass (tiny_hydra ''horizon'') Input))
   \<and> 3 \<in> set (called (horizon_pass (tiny_hydra ''horizon'') Input))
   \<and> 4 \<in> set (called (horizon_pass (tiny_hydra ''horizon'') Input))"
proof -
  let ?h = "tiny_hydra ''horizon''"
  have len: "2 < length (model ?h)" "0 < length (model ?h)" "3 < length (model ?h)"
    "4 < length (model ?h)"
    by (simp_all add: tiny_hydra_def tiny_layers_def tiny_heads_def)
  have ids: "node_i (model ?h ! 2) = IntId 2" "node_i (model ?h ! 0) = IntId 0"
    "node_i (model ?h ! 3) = StrId ''c_pitch''" "node_i (model ?h ! 4) = StrId ''c_theta''"
    by (simp_all add: tiny_hydra_def tiny_layers_def tiny_heads_def)
  have c: "cutoff ?h = 0"
    by (simp add: tiny_hydra_def)
  show ?thesis
    using horizon_skips_integer_indices_past_cutoff [OF len(1), of 2 Input]
      horizon_skips_integer_indices_past_cutoff [OF len(2), of 0 Input]
      horizon_skips_integer_indices_past_cutoff [OF len(3), of _ Input "''c_pitch''"]
      horizon_skips_integer_indices_past_cutoff [OF len(4), of _ Input "''c_theta''"]
      ids c tiny_horizon_completes
    by simp
qed

lemma fold_raised_stuck:
  assumes stuck: "\<And>s pm. raised s \<noteq> None \<Longrightarrow> step s pm = s"
  shows "raised s \<noteq> None \<Longrightarrow> foldl step s pms = s"
  by (induction pms arbitrary: s) (auto simp: stuck)

lemma fold_slot_kept:
  assumes keep: "\<And>s pm. sel s \<noteq> VNone \<Longrightarrow> sel (step s pm) \<noteq> VNone"
  shows "sel s \<noteq> VNone \<Longrightarrow> sel (foldl step s pms) \<noteq> VNone"
  by (induction pms arbitrary: s) (auto simp: keep)

lemma fold_slot_filled:
  assumes keep: "\<And>s pm. sel s \<noteq> VNone \<Longrightarrow> sel (step s pm) \<noteq> VNone"
    and hit: "\<And>s pm. P (snd pm) \<Longrightarrow> raised (step s pm) = None \<Longrightarrow> sel (step s pm) \<noteq> VNone"
    and stuck: "\<And>s pm. raised s \<noteq> None \<Longrightarrow> step s pm = s"
  shows "list_ex P (map snd pms) \<Longrightarrow> raised (foldl step s pms) = None
         \<Longrightarrow> sel (foldl step s pms) \<noteq> VNone"
proof (induction pms arbitrary: s)
  case Nil
  then show ?case by simp
next
  case (Cons pm pms)
  have r: "raised (step s pm) = None"
  proof (rule ccontr)
    assume "raised (step s pm) \<noteq> None"
    then have "foldl step (step s pm) pms = step s pm"
      using fold_raised_stuck [of step] stuck by blast
    with Cons.prems(2) \<open>raised (step s pm) \<noteq> None\<close> show False by simp
  qed
  show ?case
  proof (cases "P (snd pm)")
    case True
    then have "sel (step s pm) \<noteq> VNone" using hit r by blast
    then show ?thesis using fold_slot_kept [of sel step, OF keep] by simp
  next
    case False
    then have "list_ex P (map snd pms)" using Cons.prems(1) by simp
    then show ?thesis using Cons.IH [of "step s pm"] Cons.prems(2) by simp
  qed
qed

lemma fold_slot_empty:
  assumes miss: "\<And>s pm. \<not> P (snd pm) \<Longrightarrow> sel s = VNone \<Longrightarrow> sel (step s pm) = VNone"
  shows "\<not> list_ex P (map snd pms) \<Longrightarrow> sel s = VNone \<Longrightarrow> sel (foldl step s pms) = VNone"
  by (induction pms arbitrary: s) (auto simp: miss)

lemma map_snd_enumerate: "map snd (enumerate n xs) = xs"
  by (simp add: enumerate_eq_zip)


lemma forward_step_stuck: "raised s \<noteq> None \<Longrightarrow> forward_step h s pm = s"
  by (simp add: forward_step_def split: prod.splits)

lemma horizon_step_stuck: "raised s \<noteq> None \<Longrightarrow> horizon_step h s pm = s"
  by (simp add: horizon_step_def split: prod.splits)

lemma detect_step_stuck: "raised s \<noteq> None \<Longrightarrow> detect_step h s pm = s"
  by (simp add: detect_step_def split: prod.splits)

lemma forward_step_pitch_kept:
  "x_pitch s \<noteq> VNone \<Longrightarrow> x_pitch (forward_step h s pm) \<noteq> VNone"
  by (auto simp: forward_step_def dispatch_def run_layer_def Let_def
           split: prod.splits sum.splits node_id.splits)

lemma forward_step_theta_kept:
  "x_theta s \<noteq> VNone \<Longrightarrow> x_theta (forward_step h s pm) \<noteq> VNone"
  by (auto simp: forward_step_def dispatch_def run_layer_def Let_def
           split: prod.splits sum.splits node_id.splits)

lemma forward_step_pitch_hit:
  "is_pitch_head (snd pm) \<Longrightarrow> raised (forward_step h s pm) = None
   \<Longrightarrow> x_pitch (forward_step h s pm) \<noteq> VNone"
  by (auto simp: forward_step_def dispatch_def is_pitch_head_def
           split: prod.splits sum.splits node_id.splits if_splits)

lemma forward_step_theta_hit:
  "is_theta_head (snd pm) \<Longrightarrow> raised (forward_step h s pm) = None
   \<Longrightarrow> x_theta (forward_step h s pm) \<noteq> VNone"
  by (auto simp: forward_step_def dispatch_def is_theta_head_def
           split: prod.splits sum.splits node_id.splits if_splits)

lemma forward_step_pitch_miss:
  "\<not> is_pitch_head (snd pm) \<Longrightarrow> x_pitch s = VNone
   \<Longrightarrow> x_pitch (forward_step h s pm) = VNone"
  by (auto simp: forward_step_def dispatch_def run_layer_def Let_def is_pitch_head_def
           split: prod.splits sum.splits node_id.splits if_splits)

lemma forward_step_theta_miss:
  "\<not> is_theta_head (snd pm) \<Longrightarrow> x_theta s = VNone
   \<Longrightarrow> x_theta (forward_step h s pm) = VNone"
  by (auto simp: forward_step_def dispatch_def run_layer_def Let_def is_theta_head_def
           split: prod.splits sum.splits node_id.splits if_splits)

lemma horizon_step_cases:
  "horizon_step h s pm = s \<and> \<not> is_pitch_head (snd pm) \<and> \<not> is_theta_head (snd pm)
   \<or> horizon_step h s pm = s \<and> raised s \<noteq> None
   \<or> horizon_step h s pm = forward_step h s pm"
  by (auto simp: horizon_step_def past_cutoff_def is_pitch_head_def is_theta_head_def
           split: prod.splits node_id.splits)

lemma forward_pass_pitch:
  assumes "raised (forward_pass h x) = None"
  shows "(x_pitch (forward_pass h x) \<noteq> VNone) = list_ex is_pitch_head (model h)"
proof (cases "list_ex is_pitch_head (model h)")
  case True
  have "x_pitch (foldl (forward_step h) (start x) (enumerate 0 (model h))) \<noteq> VNone"
  proof (rule fold_slot_filled [of x_pitch "forward_step h" is_pitch_head
                                  "enumerate 0 (model h)" "start x"])
    show "list_ex is_pitch_head (map snd (enumerate 0 (model h)))"
      using True by (simp add: map_snd_enumerate)
    show "raised (foldl (forward_step h) (start x) (enumerate 0 (model h))) = None"
      using assms by (simp only: forward_pass_def)
  qed (fact forward_step_pitch_kept forward_step_pitch_hit forward_step_stuck)+
  with True show ?thesis by (simp only: forward_pass_def simp_thms)
next
  case False
  have "x_pitch (foldl (forward_step h) (start x) (enumerate 0 (model h))) = VNone"
  proof (rule fold_slot_empty [of is_pitch_head x_pitch "forward_step h"
                                 "enumerate 0 (model h)" "start x"])
    show "\<not> list_ex is_pitch_head (map snd (enumerate 0 (model h)))"
      using False by (simp add: map_snd_enumerate)
    show "x_pitch (start x) = VNone" by (simp add: start_def)
  qed (fact forward_step_pitch_miss)
  with False show ?thesis by (simp only: forward_pass_def simp_thms)
qed

lemma forward_pass_theta:
  assumes "raised (forward_pass h x) = None"
  shows "(x_theta (forward_pass h x) \<noteq> VNone) = list_ex is_theta_head (model h)"
proof (cases "list_ex is_theta_head (model h)")
  case True
  have "x_theta (foldl (forward_step h) (start x) (enumerate 0 (model h))) \<noteq> VNone"
  proof (rule fold_slot_filled [of x_theta "forward_step h" is_theta_head
                                  "enumerate 0 (model h)" "start x"])
    show "list_ex is_theta_head (map snd (enumerate 0 (model h)))"
      using True by (simp add: map_snd_enumerate)
    show "raised (foldl (forward_step h) (start x) (enumerate 0 (model h))) = None"
      using assms by (simp only: forward_pass_def)
  qed (fact forward_step_theta_kept forward_step_theta_hit forward_step_stuck)+
  with True show ?thesis by (simp only: forward_pass_def simp_thms)
next
  case False
  have "x_theta (foldl (forward_step h) (start x) (enumerate 0 (model h))) = VNone"
  proof (rule fold_slot_empty [of is_theta_head x_theta "forward_step h"
                                 "enumerate 0 (model h)" "start x"])
    show "\<not> list_ex is_theta_head (map snd (enumerate 0 (model h)))"
      using False by (simp add: map_snd_enumerate)
    show "x_theta (start x) = VNone" by (simp add: start_def)
  qed (fact forward_step_theta_miss)
  with False show ?thesis by (simp only: forward_pass_def simp_thms)
qed

lemma horizon_step_pitch_kept:
  "x_pitch s \<noteq> VNone \<Longrightarrow> x_pitch (horizon_step h s pm) \<noteq> VNone"
  using horizon_step_cases [of h s pm] forward_step_pitch_kept [of s h pm] by auto

lemma horizon_step_theta_kept:
  "x_theta s \<noteq> VNone \<Longrightarrow> x_theta (horizon_step h s pm) \<noteq> VNone"
  using horizon_step_cases [of h s pm] forward_step_theta_kept [of s h pm] by auto

lemma horizon_step_pitch_hit:
  "is_pitch_head (snd pm) \<Longrightarrow> raised (horizon_step h s pm) = None
   \<Longrightarrow> x_pitch (horizon_step h s pm) \<noteq> VNone"
  using horizon_step_cases [of h s pm] forward_step_pitch_hit [of pm h s] by auto

lemma horizon_step_theta_hit:
  "is_theta_head (snd pm) \<Longrightarrow> raised (horizon_step h s pm) = None
   \<Longrightarrow> x_theta (horizon_step h s pm) \<noteq> VNone"
  using horizon_step_cases [of h s pm] forward_step_theta_hit [of pm h s] by auto

lemma horizon_step_pitch_miss:
  "\<not> is_pitch_head (snd pm) \<Longrightarrow> x_pitch s = VNone
   \<Longrightarrow> x_pitch (horizon_step h s pm) = VNone"
  using horizon_step_cases [of h s pm] forward_step_pitch_miss [of pm s h] by auto

lemma horizon_step_theta_miss:
  "\<not> is_theta_head (snd pm) \<Longrightarrow> x_theta s = VNone
   \<Longrightarrow> x_theta (horizon_step h s pm) = VNone"
  using horizon_step_cases [of h s pm] forward_step_theta_miss [of pm s h] by auto

lemma horizon_pass_pitch:
  assumes "raised (horizon_pass h x) = None"
  shows "(x_pitch (horizon_pass h x) \<noteq> VNone) = list_ex is_pitch_head (model h)"
proof (cases "list_ex is_pitch_head (model h)")
  case True
  have "x_pitch (foldl (horizon_step h) (start x) (enumerate 0 (model h))) \<noteq> VNone"
  proof (rule fold_slot_filled [of x_pitch "horizon_step h" is_pitch_head
                                  "enumerate 0 (model h)" "start x"])
    show "list_ex is_pitch_head (map snd (enumerate 0 (model h)))"
      using True by (simp add: map_snd_enumerate)
    show "raised (foldl (horizon_step h) (start x) (enumerate 0 (model h))) = None"
      using assms by (simp only: horizon_pass_def)
  qed (fact horizon_step_pitch_kept horizon_step_pitch_hit horizon_step_stuck)+
  with True show ?thesis by (simp only: horizon_pass_def simp_thms)
next
  case False
  have "x_pitch (foldl (horizon_step h) (start x) (enumerate 0 (model h))) = VNone"
  proof (rule fold_slot_empty [of is_pitch_head x_pitch "horizon_step h"
                                 "enumerate 0 (model h)" "start x"])
    show "\<not> list_ex is_pitch_head (map snd (enumerate 0 (model h)))"
      using False by (simp add: map_snd_enumerate)
    show "x_pitch (start x) = VNone" by (simp add: start_def)
  qed (fact horizon_step_pitch_miss)
  with False show ?thesis by (simp only: horizon_pass_def simp_thms)
qed

lemma horizon_pass_theta:
  assumes "raised (horizon_pass h x) = None"
  shows "(x_theta (horizon_pass h x) \<noteq> VNone) = list_ex is_theta_head (model h)"
proof (cases "list_ex is_theta_head (model h)")
  case True
  have "x_theta (foldl (horizon_step h) (start x) (enumerate 0 (model h))) \<noteq> VNone"
  proof (rule fold_slot_filled [of x_theta "horizon_step h" is_theta_head
                                  "enumerate 0 (model h)" "start x"])
    show "list_ex is_theta_head (map snd (enumerate 0 (model h)))"
      using True by (simp add: map_snd_enumerate)
    show "raised (foldl (horizon_step h) (start x) (enumerate 0 (model h))) = None"
      using assms by (simp only: horizon_pass_def)
  qed (fact horizon_step_theta_kept horizon_step_theta_hit horizon_step_stuck)+
  with True show ?thesis by (simp only: horizon_pass_def simp_thms)
next
  case False
  have "x_theta (foldl (horizon_step h) (start x) (enumerate 0 (model h))) = VNone"
  proof (rule fold_slot_empty [of is_theta_head x_theta "horizon_step h"
                                 "enumerate 0 (model h)" "start x"])
    show "\<not> list_ex is_theta_head (map snd (enumerate 0 (model h)))"
      using False by (simp add: map_snd_enumerate)
    show "x_theta (start x) = VNone" by (simp add: start_def)
  qed (fact horizon_step_theta_miss)
  with False show ?thesis by (simp only: horizon_pass_def simp_thms)
qed

lemma detect_step_cur_kept:
  "cur s \<noteq> VNone \<Longrightarrow> cur (detect_step h s pm) \<noteq> VNone"
  by (auto simp: detect_step_def run_layer_def Let_def split: prod.splits sum.splits)

lemma detect_pass_cur: "x \<noteq> VNone \<Longrightarrow> cur (detect_pass h x) \<noteq> VNone"
  using fold_slot_kept [of cur "detect_step h" "start x" "enumerate 0 (model h)",
          OF detect_step_cur_kept]
  by (simp add: detect_pass_def start_def)

lemma forward_step_plain:
  assumes "node_type m \<noteq> ''models.common.Classify''"
    and "raised (forward_step h s (p, m)) = None"
  shows "\<exists>u. forward_step h s (p, m) =
           s\<lparr>cur := Out p u,
             ys := ys s @ [if in_save (node_i m) (save h) then Out p u else VNone],
             called := called s @ [p]\<rparr>"
  using assms
  by (auto simp: forward_step_def dispatch_def run_layer_def Let_def
           split: sum.splits if_splits)

lemma plain_fold:
  assumes "list_all (\<lambda>m. node_type m \<noteq> ''models.common.Classify'') ms"
    and "raised (foldl (forward_step h) s (enumerate k ms)) = None"
  shows "length (ys (foldl (forward_step h) s (enumerate k ms))) = length (ys s) + length ms
       \<and> called (foldl (forward_step h) s (enumerate k ms)) = called s @ [k..<k + length ms]
       \<and> x_pitch (foldl (forward_step h) s (enumerate k ms)) = x_pitch s
       \<and> x_theta (foldl (forward_step h) s (enumerate k ms)) = x_theta s
       \<and> (ms \<noteq> [] \<longrightarrow>
            (\<exists>u. cur (foldl (forward_step h) s (enumerate k ms)) = Out (k + length ms - 1) u))
       \<and> (\<forall>j<length ms. in_save (node_i (ms ! j)) (save h) \<longrightarrow>
            (\<exists>u. ys (foldl (forward_step h) s (enumerate k ms)) ! (length (ys s) + j)
                   = Out (k + j) u))"
  using assms
proof (induction ms rule: rev_induct)
  case Nil
  then show ?case by simp
next
  case (snoc m ms)
  let ?s1 = "foldl (forward_step h) s (enumerate k ms)"
  let ?p = "k + length ms"
  have fold: "foldl (forward_step h) s (enumerate k (ms @ [m])) = forward_step h ?s1 (?p, m)"
    by (simp add: enumerate_append_eq)
  have r2: "raised (forward_step h ?s1 (?p, m)) = None"
    using snoc.prems(2) fold by simp
  have r1: "raised ?s1 = None"
  proof (rule fold_raised_before [of "forward_step h" _ "[(?p, m)]"])
    show "raised (foldl (forward_step h) ?s1 [(?p, m)]) = None" using r2 by simp
  qed (fact forward_step_stuck)
  have plain: "node_type m \<noteq> ''models.common.Classify''"
    and plains: "list_all (\<lambda>m. node_type m \<noteq> ''models.common.Classify'') ms"
    using snoc.prems(1) by simp_all
  note IH = snoc.IH [OF plains r1]
  obtain u where step: "forward_step h ?s1 (?p, m) =
      ?s1\<lparr>cur := Out ?p u,
          ys := ys ?s1 @ [if in_save (node_i m) (save h) then Out ?p u else VNone],
          called := called ?s1 @ [?p]\<rparr>"
    using forward_step_plain [OF plain r2] by blast
  have len: "length (ys ?s1) = length (ys s) + length ms" using IH by simp
  have saved: "\<exists>u. ys (forward_step h ?s1 (?p, m)) ! (length (ys s) + j) = Out (k + j) u"
    if "j < length (ms @ [m])" and "in_save (node_i ((ms @ [m]) ! j)) (save h)" for j
  proof (cases "j < length ms")
    case True
    then have "in_save (node_i (ms ! j)) (save h)" using that(2) by (simp add: nth_append)
    then obtain u' where "ys ?s1 ! (length (ys s) + j) = Out (k + j) u'"
      using IH True by blast
    then show ?thesis using True len by (simp add: step nth_append)
  next
    case False
    then have j: "j = length ms" using that(1) by simp
    then have "in_save (node_i m) (save h)" using that(2) by simp
    then show ?thesis using j len by (simp add: step nth_append)
  qed
  show ?case
    unfolding fold
    using IH saved by (simp add: step)
qed


lemma pitch_head_step:
  assumes "raised s = None" and "0 \<le> c" and "nat c < length (ys s)"
  shows "forward_step h s (n, classify_head ''c_pitch'' c) =
           s\<lparr>cur := ys s ! nat c, x_pitch := Out n (ys s ! nat c), called := called s @ [n]\<rparr>"
  using assms
  by (simp add: forward_step_def classify_head_def resolve_input_def py_get_def dispatch_def
      Let_def)

lemma theta_head_step:
  assumes "raised s = None" and "0 \<le> c" and "nat c < length (ys s)"
  shows "forward_step h s (n, classify_head ''c_theta'' c) =
           s\<lparr>cur := ys s ! nat c, x_theta := Out n (ys s ! nat c), called := called s @ [n]\<rparr>"
  using assms
  by (simp add: forward_step_def classify_head_def resolve_input_def py_get_def dispatch_def
      Let_def)

lemma horizon_fold_kept:
  assumes "list_all (\<lambda>pm. \<not> past_cutoff h (snd pm)) pms"
  shows "foldl (horizon_step h) s pms = foldl (forward_step h) s pms"
  using assms
proof (induction pms arbitrary: s)
  case Nil
  then show ?case by simp
next
  case (Cons pm pms)
  have "horizon_step h s pm = forward_step h s pm"
    using Cons.prems by (cases pm) (simp add: horizon_step_def forward_step_def)
  then show ?case using Cons by simp
qed

lemma horizon_fold_skipped:
  assumes "list_all (\<lambda>pm. past_cutoff h (snd pm)) pms"
  shows "foldl (horizon_step h) s pms = s"
  using assms
proof (induction pms arbitrary: s)
  case Nil
  then show ?case by simp
next
  case (Cons pm pms)
  have "horizon_step h s pm = s"
    using Cons.prems by (cases pm) (simp add: horizon_step_def)
  then show ?case using Cons by simp
qed

lemma detect_fold_plain:
  assumes "list_all (\<lambda>pm. node_type (snd pm) \<noteq> ''models.common.Classify'') pms"
  shows "foldl (detect_step h) s pms = foldl (forward_step h) s pms"
  using assms
proof (induction pms arbitrary: s)
  case Nil
  then show ?case by simp
next
  case (Cons pm pms)
  have "detect_step h s pm = forward_step h s pm"
    using Cons.prems
    by (cases pm) (simp add: detect_step_def forward_step_def dispatch_def split: sum.splits)
  then show ?case using Cons by simp
qed

lemma detect_fold_heads:
  assumes "list_all (\<lambda>pm. node_type (snd pm) = ''models.common.Classify'') pms"
  shows "foldl (detect_step h) s pms = s"
  using assms
proof (induction pms arbitrary: s)
  case Nil
  then show ?case by simp
next
  case (Cons pm pms)
  have "detect_step h s pm = s"
    using Cons.prems by (cases pm) (simp add: detect_step_def)
  then show ?case using Cons by simp
qed

lemma snd_enumerate_all:
  "list_all (\<lambda>pm. P (snd pm)) (enumerate k ms) = list_all P ms"
  by (induction ms arbitrary: k) simp_all

lemma assembled_ids:
  assumes "assembled h body" and "j < length body"
  shows "node_i (body ! j) = IntId (int j)"
proof -
  have "map node_i body ! j = map (\<lambda>k. IntId (int k)) [0..<length body] ! j"
    using assms(1) by (simp add: assembled_def)
  then show ?thesis using assms(2) by simp
qed

lemma both_assembled:
  assumes a: "assembled h body" and r: "raised (forward_pass h x) = None"
  shows "\<exists>v. cur (forward_pass h x) = Out (nat (cutoff h)) v
           \<and> x_pitch (forward_pass h x) = Out (length body) (Out (nat (cutoff h)) v)
           \<and> x_theta (forward_pass h x) = Out (length body + 1) (Out (nat (cutoff h)) v)"
proof -
  let ?c = "cutoff h" and ?n = "length body"
  let ?sb = "foldl (forward_step h) (start x) (enumerate 0 body)"
  let ?s1 = "forward_step h ?sb (?n, classify_head ''c_pitch'' ?c)"
  let ?s2 = "forward_step h ?s1 (?n + 1, classify_head ''c_theta'' ?c)"
  have model: "model h = body @ [classify_head ''c_pitch'' ?c, classify_head ''c_theta'' ?c]"
    and plain: "list_all (\<lambda>m. node_type m \<noteq> ''models.common.Classify'') body"
    and c: "0 \<le> ?c" "nat ?c < ?n" and sv: "?c \<in> set (save h)"
    using a by (auto simp add: assembled_def)
  have pass: "forward_pass h x = ?s2"
    by (simp add: forward_pass_def model enumerate_append_eq)
  have r2: "raised ?s2 = None" using r pass by simp
  have r1: "raised ?s1 = None"
  proof (rule fold_raised_before [of "forward_step h" _ "[(?n + 1, classify_head ''c_theta'' ?c)]"])
    show "raised (foldl (forward_step h) ?s1 [(?n + 1, classify_head ''c_theta'' ?c)]) = None"
      using r2 by simp
  qed (fact forward_step_stuck)
  have rb: "raised ?sb = None"
  proof (rule fold_raised_before [of "forward_step h" _ "[(?n, classify_head ''c_pitch'' ?c)]"])
    show "raised (foldl (forward_step h) ?sb [(?n, classify_head ''c_pitch'' ?c)]) = None"
      using r1 by simp
  qed (fact forward_step_stuck)
  note body = plain_fold [OF plain rb]
  have len: "length (ys ?sb) = ?n" using body by (simp add: start_def)
  have "in_save (node_i (body ! nat ?c)) (save h)"
    using assembled_ids [OF a c(2)] sv c(1) by (simp add: in_save_def)
  then obtain v where v: "ys ?sb ! nat ?c = Out (nat ?c) v"
    using body c(2) by (auto simp add: start_def)
  have s1: "?s1 = ?sb\<lparr>cur := Out (nat ?c) v, x_pitch := Out ?n (Out (nat ?c) v),
                      called := called ?sb @ [?n]\<rparr>"
    using pitch_head_step [OF rb c(1), of h ?n] c(2) len v by simp
  have "raised (?sb\<lparr>cur := Out (nat ?c) v, x_pitch := Out ?n (Out (nat ?c) v),
                      called := called ?sb @ [?n]\<rparr>) = None"
    using rb by simp
  then have "forward_step h (?sb\<lparr>cur := Out (nat ?c) v, x_pitch := Out ?n (Out (nat ?c) v),
                      called := called ?sb @ [?n]\<rparr>) (?n + 1, classify_head ''c_theta'' ?c)
        = ?sb\<lparr>cur := Out (nat ?c) v, x_pitch := Out ?n (Out (nat ?c) v),
               called := called ?sb @ [?n], x_theta := Out (?n + 1) (Out (nat ?c) v),
               called := called ?sb @ [?n, ?n + 1]\<rparr>"
    using c len v
    by (simp add: theta_head_step)
  then show ?thesis
    unfolding pass by (simp add: s1)
qed


lemma heads_fold:
  assumes r: "raised (foldl (forward_step h) sb
                [(n, classify_head ''c_pitch'' c), (n + 1, classify_head ''c_theta'' c)]) = None"
    and c: "0 \<le> c" "nat c < length (ys sb)"
  shows "foldl (forward_step h) sb
           [(n, classify_head ''c_pitch'' c), (n + 1, classify_head ''c_theta'' c)]
         = sb\<lparr>cur := ys sb ! nat c, x_pitch := Out n (ys sb ! nat c),
               x_theta := Out (n + 1) (ys sb ! nat c), called := called sb @ [n, n + 1]\<rparr>"
proof -
  have rb: "raised sb = None"
  proof (rule fold_raised_before [of "forward_step h" _
      "[(n, classify_head ''c_pitch'' c), (n + 1, classify_head ''c_theta'' c)]"])
    show "raised (foldl (forward_step h) sb
            [(n, classify_head ''c_pitch'' c), (n + 1, classify_head ''c_theta'' c)]) = None"
      by (fact r)
  qed (fact forward_step_stuck)
  let ?s1 = "sb\<lparr>cur := ys sb ! nat c, x_pitch := Out n (ys sb ! nat c),
                 called := called sb @ [n]\<rparr>"
  have s1: "forward_step h sb (n, classify_head ''c_pitch'' c) = ?s1"
    by (rule pitch_head_step [OF rb c])
  have "raised ?s1 = None" and "nat c < length (ys ?s1)"
    using rb c(2) by simp_all
  then have "forward_step h ?s1 (n + 1, classify_head ''c_theta'' c)
        = ?s1\<lparr>cur := ys ?s1 ! nat c, x_theta := Out (n + 1) (ys ?s1 ! nat c),
               called := called ?s1 @ [n + 1]\<rparr>"
    using c(1) by (intro theta_head_step)
  then show ?thesis by (simp add: s1)
qed


lemma horizon_assembled:
  assumes a: "assembled h body" and r: "raised (horizon_pass h x) = None"
  shows "\<exists>v. x_pitch (horizon_pass h x) = Out (length body) (Out (nat (cutoff h)) v)
           \<and> x_theta (horizon_pass h x) = Out (length body + 1) (Out (nat (cutoff h)) v)"
proof -
  let ?c = "cutoff h" and ?n = "length body"
  let ?front = "take (nat ?c + 1) body" and ?tail = "drop (nat ?c + 1) body"
  let ?heads = "[(?n, classify_head ''c_pitch'' ?c), (?n + 1, classify_head ''c_theta'' ?c)]"
  let ?sb = "foldl (forward_step h) (start x) (enumerate 0 ?front)"
  have model: "model h = body @ [classify_head ''c_pitch'' ?c, classify_head ''c_theta'' ?c]"
    and plain: "list_all (\<lambda>m. node_type m \<noteq> ''models.common.Classify'') body"
    and c: "0 \<le> ?c" "nat ?c < ?n" and sv: "?c \<in> set (save h)"
    using a by (auto simp add: assembled_def)
  have len: "length ?front = nat ?c + 1" using c(2) by simp
  have split: "enumerate 0 (model h) = enumerate 0 ?front @ enumerate (nat ?c + 1) ?tail @ ?heads"
  proof -
    have "enumerate 0 body = enumerate 0 (?front @ ?tail)" by simp
    also have "\<dots> = enumerate 0 ?front @ enumerate (nat ?c + 1) ?tail"
      unfolding enumerate_append_eq len by simp
    finally show ?thesis by (simp add: model enumerate_append_eq)
  qed
  have "list_all (\<lambda>m. \<not> past_cutoff h m) ?front"
    unfolding list_all_length
  proof (intro allI impI)
    fix j assume "j < length ?front"
    then have j: "j < ?n" "j \<le> nat ?c" using c(2) by simp_all
    have "node_i (?front ! j) = IntId (int j)"
      using assembled_ids [OF a j(1)] j(2) by simp
    then show "\<not> past_cutoff h (?front ! j)"
      using j(2) c(1) by (simp add: past_cutoff_def)
  qed
  then have front: "list_all (\<lambda>pm. \<not> past_cutoff h (snd pm)) (enumerate 0 ?front)"
    using snd_enumerate_all [of "\<lambda>m. \<not> past_cutoff h m" 0 ?front] by simp
  have "list_all (\<lambda>m. past_cutoff h m) ?tail"
    unfolding list_all_length
  proof (intro allI impI)
    fix j assume "j < length ?tail"
    then have j: "nat ?c + 1 + j < ?n" by simp
    have "node_i (?tail ! j) = IntId (int (nat ?c + 1 + j))"
      using assembled_ids [OF a j] j by simp
    then show "past_cutoff h (?tail ! j)"
      using c(1) by (simp add: past_cutoff_def)
  qed
  then have tail: "list_all (\<lambda>pm. past_cutoff h (snd pm)) (enumerate (nat ?c + 1) ?tail)"
    using snd_enumerate_all [of "\<lambda>m. past_cutoff h m" "nat ?c + 1" ?tail] by simp
  have heads: "list_all (\<lambda>pm. \<not> past_cutoff h (snd pm)) ?heads"
    by (simp add: past_cutoff_def classify_head_def)
  have pass: "horizon_pass h x = foldl (forward_step h) ?sb ?heads"
    unfolding horizon_pass_def split foldl_append
    by (simp only: horizon_fold_kept [OF front] horizon_fold_skipped [OF tail]
        horizon_fold_kept [OF heads])
  have r2: "raised (foldl (forward_step h) ?sb ?heads) = None" using r pass by simp
  have rb: "raised ?sb = None"
  proof (rule fold_raised_before [of "forward_step h" _ ?heads])
    show "raised (foldl (forward_step h) ?sb ?heads) = None" by (fact r2)
  qed (fact forward_step_stuck)
  have plain_front: "list_all (\<lambda>m. node_type m \<noteq> ''models.common.Classify'') ?front"
    using plain by (auto simp add: list_all_iff dest: in_set_takeD)
  note body = plain_fold [OF plain_front rb]
  have ylen: "length (ys ?sb) = nat ?c + 1" using body len by (simp add: start_def)
  have "in_save (node_i (?front ! nat ?c)) (save h)"
    using assembled_ids [OF a c(2)] sv c(1) by (simp add: in_save_def)
  moreover have "nat ?c < length ?front" using len by simp
  ultimately have "\<exists>u. ys ?sb ! (length (ys (start x)) + nat ?c) = Out (0 + nat ?c) u"
    using body by blast
  then obtain v where v: "ys ?sb ! nat ?c = Out (nat ?c) v"
    by (auto simp add: start_def)
  have "foldl (forward_step h) ?sb ?heads
        = ?sb\<lparr>cur := ys ?sb ! nat ?c, x_pitch := Out ?n (ys ?sb ! nat ?c),
               x_theta := Out (?n + 1) (ys ?sb ! nat ?c), called := called ?sb @ [?n, ?n + 1]\<rparr>"
    using ylen by (intro heads_fold [OF r2 c(1)]) simp
  then show ?thesis
    unfolding pass using v by simp
qed

lemma detect_assembled:
  assumes a: "assembled h body" and r: "raised (detect_pass h x) = None"
  shows "\<exists>v. cur (detect_pass h x) = Out (length body - 1) v"
    and "called (detect_pass h x) = [0..<length body]"
proof -
  let ?c = "cutoff h" and ?n = "length body"
  let ?heads = "[(?n, classify_head ''c_pitch'' ?c), (?n + 1, classify_head ''c_theta'' ?c)]"
  let ?sb = "foldl (forward_step h) (start x) (enumerate 0 body)"
  have model: "model h = body @ [classify_head ''c_pitch'' ?c, classify_head ''c_theta'' ?c]"
    and plain: "list_all (\<lambda>m. node_type m \<noteq> ''models.common.Classify'') body"
    and c: "0 \<le> ?c" "nat ?c < ?n"
    using a by (auto simp add: assembled_def)
  have plains: "list_all (\<lambda>pm. node_type (snd pm) \<noteq> ''models.common.Classify'')
                  (enumerate 0 body)"
    using plain
      snd_enumerate_all [of "\<lambda>m. node_type m \<noteq> ''models.common.Classify''" 0 body]
    by simp
  have heads: "list_all (\<lambda>pm. node_type (snd pm) = ''models.common.Classify'') ?heads"
    by (simp add: classify_head_def)
  have "enumerate 0 (model h) = enumerate 0 body @ ?heads"
    by (simp add: model enumerate_append_eq)
  then have pass: "detect_pass h x = ?sb"
    unfolding detect_pass_def
    by (simp only: foldl_append detect_fold_heads [OF heads] detect_fold_plain [OF plains])
  have rb: "raised ?sb = None" using r pass by simp
  note body = plain_fold [OF plain rb]
  have "body \<noteq> []" using c(2) by auto
  then show "\<exists>v. cur (detect_pass h x) = Out (length body - 1) v"
    unfolding pass using body by simp
  show "called (detect_pass h x) = [0..<length body]"
    unfolding pass using body by (simp add: start_def)
qed


lemma detect_step_called:
  "set (called (detect_step h s (p, m)))
     \<subseteq> set (called s) \<union> (if node_type m = ''models.common.Classify'' then {} else {p})"
  by (auto simp: detect_step_def run_layer_def Let_def split: sum.splits if_splits)

lemma detect_fold_called:
  "set (called (foldl (detect_step h) s pms))
     \<subseteq> set (called s) \<union> {p. \<exists>m. (p, m) \<in> set pms \<and> node_type m \<noteq> ''models.common.Classify''}"
proof (induction pms arbitrary: s)
  case Nil
  then show ?case by simp
next
  case (Cons pm pms)
  obtain p m where pm: "pm = (p, m)" by (cases pm)
  show ?case
    using Cons.IH [of "detect_step h s (p, m)"] detect_step_called [of h s p m]
    by (auto simp: pm split: if_splits)
qed

lemma detect_pass_no_head:
  "list_all (\<lambda>p. node_type (model h ! p) \<noteq> ''models.common.Classify'')
     (called (detect_pass h x))"
  unfolding list_all_iff
proof
  fix p assume "p \<in> set (called (detect_pass h x))"
  then obtain m where "(p, m) \<in> set (enumerate 0 (model h))"
    and "node_type m \<noteq> ''models.common.Classify''"
    using detect_fold_called [of h "start x" "enumerate 0 (model h)"]
    by (auto simp: detect_pass_def start_def)
  then show "node_type (model h ! p) \<noteq> ''models.common.Classify''"
    by (auto simp: in_set_enumerate_eq)
qed

text \<open>
  C9: the slots of the result of \<open>Hydra.forward\<close>, for every model and for the model
  that the assembly builds. The detection task returns the running value alone and calls
  no classification head; the horizon task returns the pitch and theta outputs alone, and
  each of the two is filled exactly when the graph has a head for it; the remaining task
  returns all three. On an assembled model every requested slot is filled: the detection
  task returns the output of the last module of the detection model, the horizon task the
  outputs of the two heads on the output retained at the cutoff, and the remaining task
  these two with, in the first slot, the output retained at the cutoff, which is what \<open>x\<close>
  holds after the heads have read their input. The slots are local variables of the pass,
  so nothing of an earlier call can appear in them.
\<close>

theorem forward_populates_requested_slots:
  assumes "forward h x = Inr out"
  shows "(task h = ''detection'' \<longrightarrow>
            (\<exists>d. out = DetOut d \<and> (x \<noteq> VNone \<longrightarrow> d \<noteq> VNone))
            \<and> list_all (\<lambda>p. node_type (model h ! p) \<noteq> ''models.common.Classify'')
                 (called (detect_pass h x)))
       \<and> (task h = ''horizon'' \<longrightarrow>
            (\<exists>p t. out = HorOut p t
                   \<and> (p \<noteq> VNone) = list_ex is_pitch_head (model h)
                   \<and> (t \<noteq> VNone) = list_ex is_theta_head (model h)))
       \<and> (task h \<noteq> ''detection'' \<and> task h \<noteq> ''horizon'' \<longrightarrow>
            (\<exists>d p t. out = BothOut d p t
                   \<and> (p \<noteq> VNone) = list_ex is_pitch_head (model h)
                   \<and> (t \<noteq> VNone) = list_ex is_theta_head (model h)))
       \<and> (assembled h body \<longrightarrow>
            (\<exists>v. (task h = ''detection'' \<longrightarrow> out = DetOut (Out (length body - 1) v))
                \<and> (task h = ''horizon'' \<longrightarrow>
                     out = HorOut (Out (length body) (Out (nat (cutoff h)) v))
                                  (Out (length body + 1) (Out (nat (cutoff h)) v)))
                \<and> (task h \<noteq> ''detection'' \<and> task h \<noteq> ''horizon'' \<longrightarrow>
                     out = BothOut (Out (nat (cutoff h)) v)
                                   (Out (length body) (Out (nat (cutoff h)) v))
                                   (Out (length body + 1) (Out (nat (cutoff h)) v)))))"
proof (intro conjI impI)
  assume t: "task h = ''detection''"
  with assms have "detect_once h x = Inr out" by (simp add: forward_def)
  then have "out = DetOut (cur (detect_pass h x))"
    by (auto simp: detect_once_def finish_def split: option.splits)
  then show "\<exists>d. out = DetOut d \<and> (x \<noteq> VNone \<longrightarrow> d \<noteq> VNone)"
    using detect_pass_cur [of x h] by simp
  show "list_all (\<lambda>p. node_type (model h ! p) \<noteq> ''models.common.Classify'')
          (called (detect_pass h x))"
    by (rule detect_pass_no_head)
next
  assume t: "task h = ''horizon''"
  with assms have "horizon_once h x = Inr out" by (simp add: forward_def)
  then have "raised (horizon_pass h x) = None"
    and "out = HorOut (x_pitch (horizon_pass h x)) (x_theta (horizon_pass h x))"
    by (auto simp: horizon_once_def finish_def split: option.splits)
  then show "\<exists>p t. out = HorOut p t
                   \<and> (p \<noteq> VNone) = list_ex is_pitch_head (model h)
                   \<and> (t \<noteq> VNone) = list_ex is_theta_head (model h)"
    using horizon_pass_pitch [of h x] horizon_pass_theta [of h x] by simp
next
  assume t: "task h \<noteq> ''detection'' \<and> task h \<noteq> ''horizon''"
  with assms have "forward_once h x = Inr out" by (simp add: forward_def)
  then have "raised (forward_pass h x) = None"
    and "out = BothOut (cur (forward_pass h x)) (x_pitch (forward_pass h x))
                 (x_theta (forward_pass h x))"
    by (auto simp: forward_once_def finish_def split: option.splits)
  then show "\<exists>d p t. out = BothOut d p t
                   \<and> (p \<noteq> VNone) = list_ex is_pitch_head (model h)
                   \<and> (t \<noteq> VNone) = list_ex is_theta_head (model h)"
    using forward_pass_pitch [of h x] forward_pass_theta [of h x] by simp
next
  assume a: "assembled h body"
  let ?goal = "\<lambda>v. (task h = ''detection'' \<longrightarrow> out = DetOut (Out (length body - 1) v))
                \<and> (task h = ''horizon'' \<longrightarrow>
                     out = HorOut (Out (length body) (Out (nat (cutoff h)) v))
                                  (Out (length body + 1) (Out (nat (cutoff h)) v)))
                \<and> (task h \<noteq> ''detection'' \<and> task h \<noteq> ''horizon'' \<longrightarrow>
                     out = BothOut (Out (nat (cutoff h)) v)
                                   (Out (length body) (Out (nat (cutoff h)) v))
                                   (Out (length body + 1) (Out (nat (cutoff h)) v)))"
  consider (det) "task h = ''detection''" | (hor) "task h = ''horizon''"
    | (both) "task h \<noteq> ''detection'' \<and> task h \<noteq> ''horizon''"
    by blast
  then show "\<exists>v. ?goal v"
  proof cases
    case det
    with assms have "detect_once h x = Inr out" by (simp add: forward_def)
    then have r: "raised (detect_pass h x) = None"
      and out: "out = DetOut (cur (detect_pass h x))"
      by (auto simp: detect_once_def finish_def split: option.splits)
    obtain v where "cur (detect_pass h x) = Out (length body - 1) v"
      using detect_assembled(1) [OF a r] by blast
    then have "?goal v" using det out by simp
    then show ?thesis ..
  next
    case hor
    with assms have "horizon_once h x = Inr out" by (simp add: forward_def)
    then have r: "raised (horizon_pass h x) = None"
      and out: "out = HorOut (x_pitch (horizon_pass h x)) (x_theta (horizon_pass h x))"
      by (auto simp: horizon_once_def finish_def split: option.splits)
    obtain v where "x_pitch (horizon_pass h x) = Out (length body) (Out (nat (cutoff h)) v)"
      and "x_theta (horizon_pass h x) = Out (length body + 1) (Out (nat (cutoff h)) v)"
      using horizon_assembled [OF a r] by blast
    then have "?goal v" using hor out by simp
    then show ?thesis ..
  next
    case both
    with assms have "forward_once h x = Inr out" by (simp add: forward_def)
    then have r: "raised (forward_pass h x) = None"
      and out: "out = BothOut (cur (forward_pass h x)) (x_pitch (forward_pass h x))
                   (x_theta (forward_pass h x))"
      by (auto simp: forward_once_def finish_def split: option.splits)
    obtain v where "cur (forward_pass h x) = Out (nat (cutoff h)) v"
      and "x_pitch (forward_pass h x) = Out (length body) (Out (nat (cutoff h)) v)"
      and "x_theta (forward_pass h x) = Out (length body + 1) (Out (nat (cutoff h)) v)"
      using both_assembled [OF a r] by blast
    then have "?goal v" using both out by simp
    then show ?thesis ..
  qed
qed

lemma tiny_detection:
  "forward (tiny_hydra ''detection'') Input
     = Inr (DetOut (Out 2 (VList [Out 1 (Out 0 Input), Out 0 Input])))"
  by code_simp

lemma tiny_horizon:
  "forward (tiny_hydra ''horizon'') Input
     = Inr (HorOut (Out 3 (Out 0 Input)) (Out 4 (Out 0 Input)))"
  by code_simp

lemma tiny_both:
  "forward (tiny_hydra ''both'') Input
     = Inr (BothOut (Out 0 Input) (Out 3 (Out 0 Input)) (Out 4 (Out 0 Input)))"
  by code_simp

lemma tiny_assembled: "assembled (tiny_hydra t) tiny_layers"
  by (simp add: assembled_def tiny_hydra_def tiny_layers_def tiny_heads_def classify_head_def
      upt_rec)

theorem forward_populates_requested_slots_witness:
  "assembled (tiny_hydra ''both'') tiny_layers
   \<and> (\<exists>v. forward (tiny_hydra ''detection'') Input = Inr (DetOut (Out 2 v)))
   \<and> (\<exists>v. forward (tiny_hydra ''horizon'') Input
            = Inr (HorOut (Out 3 (Out 0 v)) (Out 4 (Out 0 v))))
   \<and> (\<exists>v. forward (tiny_hydra ''both'') Input
            = Inr (BothOut (Out 0 v) (Out 3 (Out 0 v)) (Out 4 (Out 0 v))))
   \<and> list_all (\<lambda>p. node_type (model (tiny_hydra ''detection'') ! p) \<noteq> ''models.common.Classify'')
        (called (detect_pass (tiny_hydra ''detection'') Input))"
proof -
  have facts: "length tiny_layers = 3" "cutoff (tiny_hydra t) = 0" "task (tiny_hydra t) = t" for t
    by (simp_all add: tiny_layers_def tiny_hydra_def)
  have det: "\<exists>v. forward (tiny_hydra ''detection'') Input = Inr (DetOut (Out 2 v))"
    using forward_populates_requested_slots [OF tiny_detection, of tiny_layers]
      tiny_assembled [of "''detection''"] tiny_detection
    by (simp add: facts)
  have hor: "\<exists>v. forward (tiny_hydra ''horizon'') Input
                 = Inr (HorOut (Out 3 (Out 0 v)) (Out 4 (Out 0 v)))"
    using forward_populates_requested_slots [OF tiny_horizon, of tiny_layers]
      tiny_assembled [of "''horizon''"] tiny_horizon
    by (simp add: facts)
  have both: "\<exists>v. forward (tiny_hydra ''both'') Input
                  = Inr (BothOut (Out 0 v) (Out 3 (Out 0 v)) (Out 4 (Out 0 v)))"
    using forward_populates_requested_slots [OF tiny_both, of tiny_layers]
      tiny_assembled [of "''both''"] tiny_both
    by (simp add: facts)
  have none: "list_all (\<lambda>p. node_type (model (tiny_hydra ''detection'') ! p)
                              \<noteq> ''models.common.Classify'')
                (called (detect_pass (tiny_hydra ''detection'') Input))"
    using forward_populates_requested_slots [OF tiny_detection, of tiny_layers]
    by (simp add: facts)
  show ?thesis
    using tiny_assembled [of "''both''"] det hor both none by blast
qed

section \<open>Properties of the assembly\<close>

lemma heads_result:
  assumes "get_classification_heads h a c = Inr (h1, p, t)"
  shows "h1 = h\<lparr>modules := modules h @ [classify_head ''c_pitch'' c, classify_head ''c_theta'' c]\<rparr>"
    and "p = length (modules h)" and "t = length (modules h) + 1"
  using assms
  by (auto simp: get_classification_heads_def Let_def split: sum.splits prod.splits)

lemma save_result:
  assumes "add_cutoff_to_save sv c = Inr sv'"
  shows "\<exists>l. sv = SaveList l \<and> sv' = SaveSet (set l \<union> {c})"
  using assms by (auto simp: add_cutoff_to_save_def split: save_val.splits)

lemma save_set_raises: "add_cutoff_to_save (SaveSet S) c = Inl TypeError"
  by (simp add: add_cutoff_to_save_def)

lemma update_fresh: "map_of al k = None \<Longrightarrow> AList.update k v al = al @ [(k, v)]"
  by (induction al) (auto split: if_splits)

lemma map_of_slice_None: "map_of al k = None \<Longrightarrow> map_of (py_slice_to al n) k = None"
  by (auto simp: py_slice_to_def map_of_eq_None_iff dest!: in_set_takeD)

lemma slice_map: "py_slice_to (map f xs) n = map f (py_slice_to xs n)"
  by (simp add: py_slice_to_def take_map)

lemma slice_all: "list_all P xs \<Longrightarrow> list_all P (py_slice_to xs n)"
  by (auto simp: py_slice_to_def list_all_iff dest!: in_set_takeD)

lemma map_old_modules:
  "list_all (\<lambda>(name, ma). ma < length ms) al
   \<Longrightarrow> map (\<lambda>(name, ma). (ms @ extra) ! ma) al = map (\<lambda>(name, ma). ms ! ma) al"
  by (induction al) (auto simp: nth_append)

lemma heads_raise_after:
  assumes "py_get al (c + 1) = Inr (name, ma)" and "in_channels (ms ! ma) = Inl e"
    and "seqs h ! dm_model (models h ! a) = al" and "modules h = ms"
  shows "get_classification_heads h a c = Inl e"
  using assms by (simp add: get_classification_heads_def)


lemma from_detection_model_explicit:
  assumes wf: "wf_model h a" and ok: "from_detection_model h a c = Inr h'"
  shows "\<exists>l. dm_save (models h ! a) = SaveList l
           \<and> h' = \<lparr>modules = modules h @ [classify_head ''c_pitch'' c, classify_head ''c_theta'' c],
                   seqs = seqs h @ [py_slice_to (seqs h ! dm_model (models h ! a)) (c + 1)
                                     @ [(''c_pitch'', length (modules h)),
                                        (''c_theta'', length (modules h) + 1)]],
                   models = (models h)[a := \<lparr>dm_model = length (seqs h),
                                               dm_save = SaveSet (set l \<union> {c})\<rparr>]\<rparr>"
proof -
  let ?s = "dm_model (models h ! a)"
  let ?S = "py_slice_to (seqs h ! ?s) (c + 1)"
  obtain h1 p t where g: "get_classification_heads h a c = Inr (h1, p, t)"
    using ok by (auto simp: from_detection_model_def split: sum.splits)
  note hr = heads_result [OF g]
  have m1: "models h1 = models h" and s1: "seqs h1 = seqs h" by (simp_all add: hr(1))
  obtain sv where sv: "add_cutoff_to_save (dm_save (models h ! a)) c = Inr sv"
    using ok g m1 by (auto simp: from_detection_model_def split: sum.splits)
  obtain l where l: "dm_save (models h ! a) = SaveList l" "sv = SaveSet (set l \<union> {c})"
    using save_result [OF sv] by blast
  have f1: "map_of ?S ''c_pitch'' = None"
    using wf by (intro map_of_slice_None) (simp add: wf_model_def)
  have f2: "map_of (?S @ [(''c_pitch'', p)]) ''c_theta'' = None"
    using wf map_of_slice_None [of "seqs h ! ?s" "''c_theta''" "c + 1"]
    by (simp add: wf_model_def map_of_append)
  have u1: "AList.update ''c_pitch'' p ?S = ?S @ [(''c_pitch'', p)]"
    using f1 by (rule update_fresh)
  have u2: "AList.update ''c_theta'' t (?S @ [(''c_pitch'', p)])
              = ?S @ [(''c_pitch'', p), (''c_theta'', t)]"
    using update_fresh [OF f2, of t] by simp
  have "h' = add_module (add_module
               (h1\<lparr>seqs := seqs h1 @ [?S],
                    models := (models h1)[a := \<lparr>dm_model = length (seqs h1), dm_save = sv\<rparr>]\<rparr>)
               (length (seqs h1)) ''c_pitch'' p) (length (seqs h1)) ''c_theta'' t"
    using ok g sv m1 s1 by (simp add: from_detection_model_def Let_def)
  then have "h' = \<lparr>modules = modules h1, seqs = seqs h @ [?S @ [(''c_pitch'', p), (''c_theta'', t)]],
                  models = (models h)[a := \<lparr>dm_model = length (seqs h), dm_save = sv\<rparr>]\<rparr>"
    using u1 u2 by (simp add: add_module_def m1 s1)
  then show ?thesis using l hr by simp
qed

lemma add_classification_heads_explicit:
  assumes wf: "wf_model h a" and ok: "add_classification_heads h a c = Inr h'"
  shows "\<exists>l. dm_save (models h ! a) = SaveList l
           \<and> h' = \<lparr>modules = modules h @ [classify_head ''c_pitch'' c, classify_head ''c_theta'' c],
                   seqs = (seqs h)[dm_model (models h ! a) :=
                                     seqs h ! dm_model (models h ! a)
                                     @ [(''c_pitch'', length (modules h)),
                                        (''c_theta'', length (modules h) + 1)]],
                   models = (models h)[a := \<lparr>dm_model = dm_model (models h ! a),
                                               dm_save = SaveSet (set l \<union> {c})\<rparr>]\<rparr>"
proof -
  let ?s = "dm_model (models h ! a)"
  let ?S = "seqs h ! ?s"
  obtain h1 p t where g: "get_classification_heads h a c = Inr (h1, p, t)"
    using ok by (auto simp: add_classification_heads_def split: sum.splits)
  note hr = heads_result [OF g]
  have m1: "models h1 = models h" and s1: "seqs h1 = seqs h" by (simp_all add: hr(1))
  obtain sv where sv: "add_cutoff_to_save (dm_save (models h ! a)) c = Inr sv"
    using ok g m1 by (auto simp: add_classification_heads_def split: sum.splits)
  obtain l where l: "dm_save (models h ! a) = SaveList l" "sv = SaveSet (set l \<union> {c})"
    using save_result [OF sv] by blast
  have len: "?s < length (seqs h)" using wf by (simp add: wf_model_def)
  have f1: "map_of ?S ''c_pitch'' = None" using wf by (simp add: wf_model_def)
  have f2: "map_of (?S @ [(''c_pitch'', p)]) ''c_theta'' = None"
    using wf by (simp add: wf_model_def map_of_append)
  have u1: "AList.update ''c_pitch'' p ?S = ?S @ [(''c_pitch'', p)]"
    using f1 by (rule update_fresh)
  have u2: "AList.update ''c_theta'' t (?S @ [(''c_pitch'', p)])
              = ?S @ [(''c_pitch'', p), (''c_theta'', t)]"
    using update_fresh [OF f2, of t] by simp
  have "h' = add_module (add_module
               (h1\<lparr>models := (models h1)[a := \<lparr>dm_model = ?s, dm_save = sv\<rparr>]\<rparr>)
               ?s ''c_pitch'' p) ?s ''c_theta'' t"
    using ok g sv m1 s1 by (simp add: add_classification_heads_def Let_def)
  then have "h' = \<lparr>modules = modules h1,
                  seqs = (seqs h)[?s := ?S @ [(''c_pitch'', p), (''c_theta'', t)]],
                  models = (models h)[a := \<lparr>dm_model = ?s, dm_save = sv\<rparr>]\<rparr>"
    using u1 u2 len by (simp add: add_module_def m1 s1)
  then show ?thesis using l hr by simp
qed

lemma from_detection_model_again:
  assumes "dm_save (models h ! a) = SaveSet S"
  shows "\<exists>e. from_detection_model h a c = Inl e"
proof (cases "get_classification_heads h a c")
  case (Inl e)
  then show ?thesis by (simp add: from_detection_model_def)
next
  case (Inr r)
  obtain h1 p t where r: "r = (h1, p, t)" by (cases r)
  have "models h1 = models h" using heads_result(1) [of h a c h1 p t] Inr r by simp
  then show ?thesis
    using Inr r assms by (simp add: from_detection_model_def save_set_raises)
qed

lemma add_classification_heads_again:
  assumes "dm_save (models h ! a) = SaveSet S"
  shows "\<exists>e. add_classification_heads h a c = Inl e"
proof (cases "get_classification_heads h a c")
  case (Inl e)
  then show ?thesis by (simp add: add_classification_heads_def)
next
  case (Inr r)
  obtain h1 p t where r: "r = (h1, p, t)" by (cases r)
  have "models h1 = models h" using heads_result(1) [of h a c h1 p t] Inr r by simp
  then show ?thesis
    using Inr r assms by (simp add: add_classification_heads_def save_set_raises)
qed


lemma tiny_horizon_assembly: "from_detection_model tiny_heap 0 0 = Inr tiny_horizon_heap"
  by (simp add: from_detection_model_def get_classification_heads_def py_get_def in_channels_def
        add_cutoff_to_save_def add_module_def py_slice_to_def classify_head_def Let_def
        tiny_heap_def tiny_horizon_heap_def tiny_layers_def tiny_heads_def)

lemma tiny_hydra_assembly: "add_classification_heads tiny_heap 0 0 = Inr tiny_hydra_heap"
  by (simp add: add_classification_heads_def get_classification_heads_def py_get_def
        in_channels_def add_cutoff_to_save_def add_module_def classify_head_def Let_def
        tiny_heap_def tiny_hydra_heap_def tiny_layers_def tiny_heads_def)

lemma tiny_wf: "wf_model tiny_heap 0"
  by (simp add: wf_model_def tiny_heap_def tiny_layers_def)

text \<open>
  C6, as the specification states it: assembly leaves the base graph as it was. On the
  small model both assemblies change it: the horizon assembly rebinds the module list of
  the detection model to the truncated list with the heads and turns \<open>save\<close> into a set,
  the multi-task assembly appends the heads to the container of the detection model.
\<close>

theorem assembly_mutates_base_model:
  "from_detection_model tiny_heap 0 0 = Inr tiny_horizon_heap
   \<and> graph_at tiny_horizon_heap 0 \<noteq> graph_at tiny_heap 0
   \<and> dm_save (models tiny_horizon_heap ! 0) \<noteq> dm_save (models tiny_heap ! 0)
   \<and> add_classification_heads tiny_heap 0 0 = Inr tiny_hydra_heap
   \<and> graph_at tiny_hydra_heap 0 \<noteq> graph_at tiny_heap 0
   \<and> seqs tiny_hydra_heap ! 0 \<noteq> seqs tiny_heap ! 0"
  using tiny_horizon_assembly tiny_hydra_assembly
  by (simp add: graph_at_def tiny_heap_def tiny_horizon_heap_def tiny_hydra_heap_def
        tiny_layers_def tiny_heads_def)

lemma from_detection_model_effect:
  assumes wf: "wf_model h a" and ok: "from_detection_model h a c = Inr h'"
  shows "graph_at h' a = py_slice_to (graph_at h a) (c + 1)
                           @ [classify_head ''c_pitch'' c, classify_head ''c_theta'' c]"
    and "\<exists>l. dm_save (models h ! a) = SaveList l
             \<and> dm_save (models h' ! a) = SaveSet (set l \<union> {c})"
    and "take (length (modules h)) (modules h') = modules h"
    and "take (length (seqs h)) (seqs h') = seqs h"
    and "\<exists>e. from_detection_model h' a c' = Inl e"
proof -
  let ?s = "dm_model (models h ! a)"
  let ?heads = "[classify_head ''c_pitch'' c, classify_head ''c_theta'' c]"
  obtain l where l: "dm_save (models h ! a) = SaveList l"
    and h': "h' = \<lparr>modules = modules h @ ?heads,
                   seqs = seqs h @ [py_slice_to (seqs h ! ?s) (c + 1)
                                     @ [(''c_pitch'', length (modules h)),
                                        (''c_theta'', length (modules h) + 1)]],
                   models = (models h)[a := \<lparr>dm_model = length (seqs h),
                                               dm_save = SaveSet (set l \<union> {c})\<rparr>]\<rparr>"
    using from_detection_model_explicit [OF wf ok] by blast
  have a: "a < length (models h)" using wf by (simp add: wf_model_def)
  have all: "list_all (\<lambda>(name, ma). ma < length (modules h)) (py_slice_to (seqs h ! ?s) (c + 1))"
    using wf by (intro slice_all) (simp add: wf_model_def)
  have "graph_at h' a
          = map (\<lambda>(name, ma). (modules h @ ?heads) ! ma) (py_slice_to (seqs h ! ?s) (c + 1))
            @ ?heads"
    using a by (simp add: graph_at_def h' nth_append)
  also have "\<dots> = map (\<lambda>(name, ma). modules h ! ma) (py_slice_to (seqs h ! ?s) (c + 1)) @ ?heads"
    using map_old_modules [OF all] by simp
  finally show "graph_at h' a = py_slice_to (graph_at h a) (c + 1) @ ?heads"
    by (simp add: graph_at_def slice_map)
  show "\<exists>l. dm_save (models h ! a) = SaveList l
             \<and> dm_save (models h' ! a) = SaveSet (set l \<union> {c})"
    using l a by (simp add: h')
  show "take (length (modules h)) (modules h') = modules h" by (simp add: h')
  show "take (length (seqs h)) (seqs h') = seqs h" by (simp add: h')
  have "dm_save (models h' ! a) = SaveSet (set l \<union> {c})" using a by (simp add: h')
  then show "\<exists>e. from_detection_model h' a c' = Inl e"
    by (rule from_detection_model_again)
qed

lemma add_classification_heads_effect:
  assumes wf: "wf_model h a" and ok: "add_classification_heads h a c = Inr h'"
  shows "graph_at h' a = graph_at h a
                           @ [classify_head ''c_pitch'' c, classify_head ''c_theta'' c]"
    and "\<exists>l. dm_save (models h ! a) = SaveList l
             \<and> dm_save (models h' ! a) = SaveSet (set l \<union> {c})"
    and "take (length (modules h)) (modules h') = modules h"
    and "dm_model (models h' ! a) = dm_model (models h ! a)"
    and "\<exists>e. add_classification_heads h' a c' = Inl e"
proof -
  let ?s = "dm_model (models h ! a)"
  let ?heads = "[classify_head ''c_pitch'' c, classify_head ''c_theta'' c]"
  obtain l where l: "dm_save (models h ! a) = SaveList l"
    and h': "h' = \<lparr>modules = modules h @ ?heads,
                   seqs = (seqs h)[?s := seqs h ! ?s
                                     @ [(''c_pitch'', length (modules h)),
                                        (''c_theta'', length (modules h) + 1)]],
                   models = (models h)[a := \<lparr>dm_model = ?s,
                                               dm_save = SaveSet (set l \<union> {c})\<rparr>]\<rparr>"
    using add_classification_heads_explicit [OF wf ok] by blast
  have a: "a < length (models h)" and s: "?s < length (seqs h)"
    using wf by (simp_all add: wf_model_def)
  have all: "list_all (\<lambda>(name, ma). ma < length (modules h)) (seqs h ! ?s)"
    using wf by (simp add: wf_model_def)
  have "graph_at h' a
          = map (\<lambda>(name, ma). (modules h @ ?heads) ! ma) (seqs h ! ?s) @ ?heads"
    using a s by (simp add: graph_at_def h' nth_append)
  also have "\<dots> = map (\<lambda>(name, ma). modules h ! ma) (seqs h ! ?s) @ ?heads"
    using map_old_modules [OF all] by simp
  finally show "graph_at h' a = graph_at h a @ ?heads"
    by (simp add: graph_at_def)
  show "\<exists>l. dm_save (models h ! a) = SaveList l
             \<and> dm_save (models h' ! a) = SaveSet (set l \<union> {c})"
    using l a by (simp add: h')
  show "take (length (modules h)) (modules h') = modules h" by (simp add: h')
  show "dm_model (models h' ! a) = dm_model (models h ! a)" using a by (simp add: h')
  have "dm_save (models h' ! a) = SaveSet (set l \<union> {c})" using a by (simp add: h')
  then show "\<exists>e. add_classification_heads h' a c' = Inl e"
    by (rule add_classification_heads_again)
qed

text \<open>
  C6, amended: assembly works in place on the detection model that was loaded for it, and
  the store after it is determined. The two heads are new module objects, placed after
  the old ones, which are unchanged. The horizon assembly adds one container, whose
  entries are those of the old container up to the cutoff, with the same module
  addresses, followed by the two heads; it rebinds the model object to the new container
  and leaves the old container as it was. The multi-task assembly appends the two heads
  to the container of the model object itself. Either way \<open>save\<close> becomes the old list
  with the cutoff, as a set, and a second assembly on the same model object raises.
\<close>

theorem assembly_is_in_place:
  assumes "wf_model h a"
  shows "(from_detection_model h a c = Inr h' \<longrightarrow>
            (\<exists>l. dm_save (models h ! a) = SaveList l
                \<and> h' = \<lparr>modules = modules h @ [classify_head ''c_pitch'' c,
                                               classify_head ''c_theta'' c],
                        seqs = seqs h @ [py_slice_to (seqs h ! dm_model (models h ! a)) (c + 1)
                                          @ [(''c_pitch'', length (modules h)),
                                             (''c_theta'', length (modules h) + 1)]],
                        models = (models h)[a := \<lparr>dm_model = length (seqs h),
                                                    dm_save = SaveSet (set l \<union> {c})\<rparr>]\<rparr>)
            \<and> graph_at h' a = py_slice_to (graph_at h a) (c + 1)
                              @ [classify_head ''c_pitch'' c, classify_head ''c_theta'' c]
            \<and> (\<forall>c'. \<exists>e. from_detection_model h' a c' = Inl e))
       \<and> (add_classification_heads h a c = Inr h' \<longrightarrow>
            (\<exists>l. dm_save (models h ! a) = SaveList l
                \<and> h' = \<lparr>modules = modules h @ [classify_head ''c_pitch'' c,
                                               classify_head ''c_theta'' c],
                        seqs = (seqs h)[dm_model (models h ! a) :=
                                          seqs h ! dm_model (models h ! a)
                                          @ [(''c_pitch'', length (modules h)),
                                             (''c_theta'', length (modules h) + 1)]],
                        models = (models h)[a := \<lparr>dm_model = dm_model (models h ! a),
                                                    dm_save = SaveSet (set l \<union> {c})\<rparr>]\<rparr>)
            \<and> graph_at h' a = graph_at h a
                              @ [classify_head ''c_pitch'' c, classify_head ''c_theta'' c]
            \<and> (\<forall>c'. \<exists>e. add_classification_heads h' a c' = Inl e))"
proof (intro conjI impI)
  assume ok: "from_detection_model h a c = Inr h'"
  show "\<exists>l. dm_save (models h ! a) = SaveList l
          \<and> h' = \<lparr>modules = modules h @ [classify_head ''c_pitch'' c,
                                         classify_head ''c_theta'' c],
                  seqs = seqs h @ [py_slice_to (seqs h ! dm_model (models h ! a)) (c + 1)
                                    @ [(''c_pitch'', length (modules h)),
                                       (''c_theta'', length (modules h) + 1)]],
                  models = (models h)[a := \<lparr>dm_model = length (seqs h),
                                              dm_save = SaveSet (set l \<union> {c})\<rparr>]\<rparr>"
    by (rule from_detection_model_explicit [OF assms ok])
  show "graph_at h' a = py_slice_to (graph_at h a) (c + 1)
                          @ [classify_head ''c_pitch'' c, classify_head ''c_theta'' c]"
    by (rule from_detection_model_effect(1) [OF assms ok])
  show "\<forall>c'. \<exists>e. from_detection_model h' a c' = Inl e"
    using from_detection_model_effect(5) [OF assms ok] by blast
next
  assume ok: "add_classification_heads h a c = Inr h'"
  show "\<exists>l. dm_save (models h ! a) = SaveList l
          \<and> h' = \<lparr>modules = modules h @ [classify_head ''c_pitch'' c,
                                         classify_head ''c_theta'' c],
                  seqs = (seqs h)[dm_model (models h ! a) :=
                                    seqs h ! dm_model (models h ! a)
                                    @ [(''c_pitch'', length (modules h)),
                                       (''c_theta'', length (modules h) + 1)]],
                  models = (models h)[a := \<lparr>dm_model = dm_model (models h ! a),
                                              dm_save = SaveSet (set l \<union> {c})\<rparr>]\<rparr>"
    by (rule add_classification_heads_explicit [OF assms ok])
  show "graph_at h' a = graph_at h a
                          @ [classify_head ''c_pitch'' c, classify_head ''c_theta'' c]"
    by (rule add_classification_heads_effect(1) [OF assms ok])
  show "\<forall>c'. \<exists>e. add_classification_heads h' a c' = Inl e"
    using add_classification_heads_effect(5) [OF assms ok] by blast
qed

theorem assembly_is_in_place_witness:
  "wf_model tiny_heap 0
   \<and> from_detection_model tiny_heap 0 0 = Inr tiny_horizon_heap
   \<and> modules tiny_horizon_heap
       = modules tiny_heap @ [classify_head ''c_pitch'' 0, classify_head ''c_theta'' 0]
   \<and> seqs tiny_horizon_heap
       = seqs tiny_heap @ [[(''0'', 0), (''c_pitch'', 3), (''c_theta'', 4)]]
   \<and> dm_model (models tiny_horizon_heap ! 0) = 1
   \<and> add_classification_heads tiny_heap 0 0 = Inr tiny_hydra_heap
   \<and> modules tiny_hydra_heap
       = modules tiny_heap @ [classify_head ''c_pitch'' 0, classify_head ''c_theta'' 0]
   \<and> seqs tiny_hydra_heap
       = [[(''0'', 0), (''1'', 1), (''2'', 2), (''c_pitch'', 3), (''c_theta'', 4)]]
   \<and> dm_model (models tiny_hydra_heap ! 0) = 0"
proof -
  have base: "length (modules tiny_heap) = 3"
    "seqs tiny_heap = [[(''0'', 0), (''1'', 1), (''2'', 2)]]"
    "models tiny_heap = [\<lparr>dm_model = 0, dm_save = SaveList [0]\<rparr>]"
    by (simp_all add: tiny_heap_def tiny_layers_def)
  obtain l where "tiny_horizon_heap =
      \<lparr>modules = modules tiny_heap @ [classify_head ''c_pitch'' 0, classify_head ''c_theta'' 0],
       seqs = seqs tiny_heap @ [py_slice_to (seqs tiny_heap ! dm_model (models tiny_heap ! 0)) (0 + 1)
                                 @ [(''c_pitch'', length (modules tiny_heap)),
                                    (''c_theta'', length (modules tiny_heap) + 1)]],
       models = (models tiny_heap)[0 := \<lparr>dm_model = length (seqs tiny_heap),
                                          dm_save = SaveSet (set l \<union> {0})\<rparr>]\<rparr>"
    using assembly_is_in_place [OF tiny_wf, of 0 tiny_horizon_heap] tiny_horizon_assembly
    by blast
  note horizon_heap = this
  have horizon: "modules tiny_horizon_heap
       = modules tiny_heap @ [classify_head ''c_pitch'' 0, classify_head ''c_theta'' 0]"
    "seqs tiny_horizon_heap = seqs tiny_heap @ [[(''0'', 0), (''c_pitch'', 3), (''c_theta'', 4)]]"
    "dm_model (models tiny_horizon_heap ! 0) = 1"
    by (subst horizon_heap, simp add: base py_slice_to_def)+
  obtain l' where "tiny_hydra_heap =
      \<lparr>modules = modules tiny_heap @ [classify_head ''c_pitch'' 0, classify_head ''c_theta'' 0],
       seqs = (seqs tiny_heap)[dm_model (models tiny_heap ! 0) :=
                                 seqs tiny_heap ! dm_model (models tiny_heap ! 0)
                                 @ [(''c_pitch'', length (modules tiny_heap)),
                                    (''c_theta'', length (modules tiny_heap) + 1)]],
       models = (models tiny_heap)[0 := \<lparr>dm_model = dm_model (models tiny_heap ! 0),
                                          dm_save = SaveSet (set l' \<union> {0})\<rparr>]\<rparr>"
    using assembly_is_in_place [OF tiny_wf, of 0 tiny_hydra_heap] tiny_hydra_assembly
    by blast
  note hydra_heap = this
  have hydra: "modules tiny_hydra_heap
       = modules tiny_heap @ [classify_head ''c_pitch'' 0, classify_head ''c_theta'' 0]"
    "seqs tiny_hydra_heap
       = [[(''0'', 0), (''1'', 1), (''2'', 2), (''c_pitch'', 3), (''c_theta'', 4)]]"
    "dm_model (models tiny_hydra_heap ! 0) = 0"
    by (subst hydra_heap, simp add: base)+
  show ?thesis
    using tiny_wf tiny_horizon_assembly tiny_hydra_assembly horizon hydra by simp
qed

section \<open>Properties of the in-place box transforms\<close>

lemma inplace_cols_pair:
  assumes "a < view_width v" and "b < view_width v"
  shows "inplace_cols f s v [a, b] =
         Inr (map_rows (\<lambda>r. r[a := f (r ! a), b := f (r ! b)]) s (view_addr v))"
  using assms
  by (simp add: inplace_cols_def get_cols_def set_cols_def map_rows_def zip_map2
      zip_same_conv_map o_def)

lemma map_rows_twice: "map_rows g (map_rows f s a) a = map_rows (\<lambda>r. g (f r)) s a"
  by (cases "a < length s") (simp_all add: map_rows_def list_update_beyond o_def)

lemma map_rows_cong:
  assumes "\<And>r. r \<in> set (rows (s ! a)) \<Longrightarrow> f r = g r"
  shows "map_rows f s a = map_rows g s a"
  using assms by (simp add: map_rows_def cong: map_cong)

lemma xyxy_to_xyxyn_effect:
  assumes "4 \<le> view_width v"
  shows "xyxy_to_xyxyn s v shape = (map_rows (normalized shape) s (view_addr v), Inr v)"
proof -
  obtain h w where shape: "shape = (h, w)" by (cases shape)
  have "0 < view_width v" "1 < view_width v" "2 < view_width v" "3 < view_width v"
    using assms by simp_all
  then show ?thesis
    by (simp add: xyxy_to_xyxyn_def shape inplace_cols_pair map_rows_twice normalized_def [abs_def] list_update_swap [of 2 "Suc 0"])
qed

lemma xyxyn_to_xyxy_effect:
  assumes "4 \<le> view_width v"
  shows "xyxyn_to_xyxy s v shape = (map_rows (denormalized shape) s (view_addr v), Inr v)"
proof -
  obtain h w where shape: "shape = (h, w)" by (cases shape)
  have "0 < view_width v" "1 < view_width v" "2 < view_width v" "3 < view_width v"
    using assms by simp_all
  then show ?thesis
    by (simp add: xyxyn_to_xyxy_def shape inplace_cols_pair map_rows_twice denormalized_def [abs_def] list_update_swap [of 2 "Suc 0"])
qed

lemma clip_bounded: "clip 0 limit x = bounded limit x"
  by (simp add: clip_def bounded_def min_def max_def)

lemma bounded_range:
  assumes "0 \<le> limit"
  shows "0 \<le> bounded limit x" and "bounded limit x \<le> limit"
  using assms by (simp_all add: bounded_def)

lemma clip_boxes_steps:
  "clip_boxes s v shape =
     (case inplace_cols (clip 0 (of_int (snd shape))) s v [0, 2] of
        Inl e \<Rightarrow> (s, Inl e)
      | Inr s1 \<Rightarrow>
         (case inplace_cols (clip 0 (of_int (fst shape))) s1 v [1, 3] of
            Inl e \<Rightarrow> (s1, Inl e)
          | Inr s2 \<Rightarrow> (s2, Inr ())))"
  by (simp add: clip_boxes_def inplace_cols_def get_cols_def Let_def)

lemma clip_boxes_effect:
  assumes "4 \<le> view_width v"
  shows "clip_boxes s v shape = (map_rows (clipped shape) s (view_addr v), Inr ())"
proof -
  have "0 < view_width v" "1 < view_width v" "2 < view_width v" "3 < view_width v"
    using assms by simp_all
  then show ?thesis
    by (simp add: clip_boxes_steps inplace_cols_pair map_rows_twice clipped_def [abs_def]
        clip_bounded list_update_swap [of 2 "Suc 0"])
qed

lemma inplace_view_slice:
  assumes "4 \<le> view_width v"
  shows "inplace_view f s (slice_cols v 4) =
         map_rows (\<lambda>r. map f (take 4 r) @ drop 4 r) s (view_addr v)"
  using assms by (simp add: inplace_view_def slice_cols_def map_rows_def min_def)

lemma four_columns:
  assumes "4 \<le> length r"
  obtains x1 y1 x2 y2 rest where "r = x1 # y1 # x2 # y2 # rest"
  using assms by (auto simp add: numeral_eq_Suc Suc_le_length_iff)

lemma scale_boxes_effect:
  assumes "valid_view s v" and "4 \<le> view_width v"
    and "fst to_shape \<noteq> 0" and "snd to_shape \<noteq> 0"
  shows "scale_boxes s v from_shape to_shape =
         (map_rows (rescaled from_shape to_shape) s (view_addr v), Inr v)"
proof -
  have w: "0 < view_width v" "1 < view_width v" "2 < view_width v" "3 < view_width v"
    using assms(2) by simp_all
  define gain where "gain = gain_of from_shape to_shape"
  define pad_x where "pad_x = (of_int (snd from_shape) - of_int (snd to_shape) * gain) / 2"
  define pad_y where "pad_y = (of_int (fst from_shape) - of_int (fst to_shape) * gain) / 2"
  define code_row where "code_row = (\<lambda>r :: rat list.
     let r1 = r[0 := r ! 0 - pad_x, 2 := r ! 2 - pad_x];
         r2 = r1[1 := r1 ! 1 - pad_y, 3 := r1 ! 3 - pad_y];
         r3 = map (\<lambda>x. x / gain) (take 4 r2) @ drop 4 r2;
         r4 = r3[0 := clip 0 (of_int (snd to_shape)) (r3 ! 0),
                 2 := clip 0 (of_int (snd to_shape)) (r3 ! 2)]
     in r4[1 := clip 0 (of_int (fst to_shape)) (r4 ! 1),
           3 := clip 0 (of_int (fst to_shape)) (r4 ! 3)])"
  have "scale_boxes s v from_shape to_shape = (map_rows code_row s (view_addr v), Inr v)"
    using w assms(3,4)
    by (simp add: scale_boxes_def py_truediv_def Let_def inplace_cols_pair map_rows_twice
        inplace_view_slice [OF assms(2)] clip_boxes_steps code_row_def gain_def pad_x_def
        pad_y_def gain_of_def)
  moreover have "map_rows code_row s (view_addr v) =
                 map_rows (rescaled from_shape to_shape) s (view_addr v)"
  proof (rule map_rows_cong)
    fix r assume "r \<in> set (rows (s ! view_addr v))"
    then have "4 \<le> length r"
      using assms(1,2) by (auto simp add: valid_view_def list_all_iff)
    then obtain x1 y1 x2 y2 rest where "r = x1 # y1 # x2 # y2 # rest"
      by (rule four_columns)
    then show "code_row r = rescaled from_shape to_shape r"
      by (simp add: code_row_def rescaled_def Let_def gain_def pad_x_def pad_y_def
          clip_bounded)
  qed
  ultimately show ?thesis by simp
qed

lemma clipped_in_frame:
  assumes "4 \<le> length r" and "0 \<le> fst shape" and "0 \<le> snd shape"
  shows "in_frame shape (clipped shape r)"
proof -
  obtain x1 y1 x2 y2 rest where "r = x1 # y1 # x2 # y2 # rest"
    using assms(1) by (rule four_columns)
  then show ?thesis
    using assms(2,3) by (simp add: in_frame_def clipped_def bounded_range)
qed

lemma rescaled_in_frame:
  assumes "4 \<le> length r" and "0 \<le> fst shape" and "0 \<le> snd shape"
  shows "in_frame shape (rescaled from_shape shape r)"
proof -
  obtain x1 y1 x2 y2 rest where "r = x1 # y1 # x2 # y2 # rest"
    using assms(1) by (rule four_columns)
  then show ?thesis
    using assms(2,3) by (simp add: in_frame_def rescaled_def Let_def bounded_range)
qed

lemma map_rows_in_frame:
  assumes "valid_view s v" and "4 \<le> view_width v"
    and "\<And>r. 4 \<le> length r \<Longrightarrow> in_frame shape (f r)"
  shows "list_all (in_frame shape) (rows (map_rows f s (view_addr v) ! view_addr v))"
proof -
  have "4 \<le> length r" if "r \<in> set (rows (s ! view_addr v))" for r
    using that assms(1,2) by (auto simp add: valid_view_def list_all_iff)
  then show ?thesis
    using assms(1,3) by (simp add: map_rows_def valid_view_def list_all_iff)
qed


lemma normalize_all_Cons:
  "normalize_all shape s (a # addrs) =
   normalize_all shape (map_rows (normalized shape) s a) addrs"
  by (simp add: normalize_all_def)

lemma normalize_all_Nil: "normalize_all shape s [] = s"
  by (simp add: normalize_all_def)

lemma traverse_select_col:
  assumes "list_all (\<lambda>det. j < view_width det) dets"
  shows "traverse (\<lambda>det. select_col det j) dets =
         Inr (map (\<lambda>det. \<lparr>col_addr = view_addr det, col_index = j\<rparr>) dets)"
  using assms by (induction dets) (simp_all add: select_col_def)

lemma traverse_total:
  assumes "\<And>x. x \<in> set xs \<Longrightarrow> \<exists>y. f x = Inr y"
  shows "\<exists>ys. traverse f xs = Inr ys \<and> length ys = length xs"
  using assms
proof (induction xs)
  case Nil
  then show ?case by simp
next
  case (Cons x xs)
  obtain y where "f x = Inr y" using Cons.prems by auto
  moreover obtain ys where "traverse f xs = Inr ys" "length ys = length xs"
    using Cons by auto
  ultimately show ?case by simp
qed

lemma zip_three_maps:
  "zip (map f xs) (zip (map g xs) (map h xs)) = map (\<lambda>x. (f x, g x, h x)) xs"
  by (induction xs) simp_all

lemma to_tf_loop_effect:
  assumes callee: "\<And>s v. 4 \<le> view_width v \<Longrightarrow>
      imported s v shape = (map_rows (normalized shape) s (view_addr v), Inr v)"
    and wide: "list_all (\<lambda>t. 4 \<le> view_width (fst t)) ts"
  shows "\<exists>ps. to_tf_loop imported s ts shape =
              (normalize_all shape s (map (\<lambda>t. view_addr (fst t)) ts), Inr ps) \<and>
              length ps = length ts"
  using wide
proof (induction ts arbitrary: s)
  case Nil
  then show ?case by (simp add: normalize_all_Nil)
next
  case (Cons t ts)
  obtain bbs scs cls where t: "t = (bbs, scs, cls)" by (cases t)
  have w: "4 \<le> view_width bbs" using Cons.prems t by simp
  let ?s1 = "map_rows (normalized shape) s (view_addr bbs)"
  have step: "imported s bbs shape = (?s1, Inr bbs)"
    by (rule callee [OF w])
  obtain bbs2 where copy: "get_cols ?s1 bbs [1, 0, 3, 2] = Inr bbs2"
    using w by (simp add: get_cols_def)
  obtain ps where rest:
    "to_tf_loop imported ?s1 ts shape =
       (normalize_all shape ?s1 (map (\<lambda>t. view_addr (fst t)) ts), Inr ps)"
    "length ps = length ts"
    using Cons.IH [of ?s1] Cons.prems by auto
  show ?case using copy by (simp add: t step rest normalize_all_Cons)
qed

lemma normalized_nth:
  assumes "4 \<le> j"
  shows "normalized shape r ! j = r ! j"
  using assms by (simp add: normalized_def)

lemma read_col_normalized:
  assumes "4 \<le> col_index c"
  shows "read_col (map_rows (normalized shape) s a) c = read_col s c"
proof (cases "a < length s \<and> col_addr c = a")
  case True
  then show ?thesis
    using assms by (simp add: read_col_def map_rows_def normalized_nth)
next
  case False
  then show ?thesis
    by (auto simp add: read_col_def map_rows_def list_update_beyond)
qed

lemma qa_rows_total:
  assumes "list_all (\<lambda>c. map_of cm c \<noteq> None) (read_col s cls)"
  shows "\<exists>p. qa_rows s bbs scs cls cm = Inr p"
proof -
  have "\<exists>ys. qa_rows s bbs scs cls cm = Inr ys \<and>
         length ys = length (zip [0..<length (rows (s ! view_addr bbs))]
                                 (zip (read_col s scs) (read_col s cls)))"
    unfolding qa_rows_def
  proof (rule traverse_total)
    fix x
    assume x: "x \<in> set (zip [0..<length (rows (s ! view_addr bbs))]
                             (zip (read_col s scs) (read_col s cls)))"
    obtain b sc c where triple: "x = (b, sc, c)" by (cases x)
    have "c \<in> set (read_col s cls)"
      using x triple by (auto dest!: set_zip_rightD)
    then obtain name where "map_of cm c = Some name"
      using assms by (auto simp add: list_all_iff)
    then show "\<exists>y. (case x of
                      (b, sc, c) \<Rightarrow>
                        (case map_of cm c of
                           None \<Rightarrow> Inl KeyError
                         | Some name \<Rightarrow>
                            Inr \<lparr>qa_box = \<lparr>row_of = bbs, row_index = b\<rparr>, qa_name = name,
                                 qa_id = py_int c, qa_score = sc\<rparr>)) = Inr y"
      by (simp add: triple)
  qed
  then show ?thesis by blast
qed

lemma to_qa_loop_effect:
  assumes callee: "\<And>s v. 4 \<le> view_width v \<Longrightarrow>
      imported s v shape = (map_rows (normalized shape) s (view_addr v), Inr v)"
    and known: "list_all (\<lambda>(bbs, scs, cls). 4 \<le> view_width bbs \<and> 4 \<le> col_index cls \<and>
              list_all (\<lambda>c. map_of cm c \<noteq> None) (read_col s cls)) ts"
  shows "\<exists>ps. to_qa_loop imported s ts shape cm =
              (normalize_all shape s (map (\<lambda>t. view_addr (fst t)) ts), Inr ps) \<and>
              length ps = length ts"
  using known
proof (induction ts arbitrary: s)
  case Nil
  then show ?case by (simp add: normalize_all_Nil)
next
  case (Cons t ts)
  obtain bbs scs cls where t: "t = (bbs, scs, cls)" by (cases t)
  have w: "4 \<le> view_width bbs" and known: "list_all (\<lambda>c. map_of cm c \<noteq> None) (read_col s cls)"
    and j: "4 \<le> col_index cls"
    using Cons.prems t by simp_all
  let ?s1 = "map_rows (normalized shape) s (view_addr bbs)"
  have step: "imported s bbs shape = (?s1, Inr bbs)"
    by (rule callee [OF w])
  have "list_all (\<lambda>c. map_of cm c \<noteq> None) (read_col ?s1 cls)"
    using known by (simp add: read_col_normalized [OF j])
  then obtain p where entries: "qa_rows ?s1 bbs scs cls cm = Inr p"
    using qa_rows_total by blast
  have "list_all (\<lambda>(bbs, scs, cls). 4 \<le> view_width bbs \<and> 4 \<le> col_index cls \<and>
              list_all (\<lambda>c. map_of cm c \<noteq> None) (read_col ?s1 cls)) ts"
    using Cons.prems by (auto simp add: list_all_iff read_col_normalized)
  then obtain ps where rest:
    "to_qa_loop imported ?s1 ts shape cm =
       (normalize_all shape ?s1 (map (\<lambda>t. view_addr (fst t)) ts), Inr ps)"
    "length ps = length ts"
    using Cons.IH [of ?s1] by auto
  show ?case by (simp add: t step entries rest normalize_all_Cons)
qed

lemma to_mode_tf_effect:
  assumes callee: "\<And>s v. 4 \<le> view_width v \<Longrightarrow>
      imported s v shape = (map_rows (normalized shape) s (view_addr v), Inr v)"
    and wide: "list_all (\<lambda>det. 6 \<le> view_width det) dets"
  shows "\<exists>ps. to_mode imported s dets ''tf'' shape cm =
              (normalize_all shape s (map view_addr dets), Inr (TF ps)) \<and>
              length ps = length dets"
proof -
  have w4: "list_all (\<lambda>det. 4 < view_width det) dets"
    and w5: "list_all (\<lambda>det. 5 < view_width det) dets"
    using wide by (auto simp add: list_all_iff)
  define ts where "ts = map (\<lambda>det. (slice_cols det 4,
      \<lparr>col_addr = view_addr det, col_index = 4\<rparr>,
      \<lparr>col_addr = view_addr det, col_index = 5\<rparr>)) dets"
  have "list_all (\<lambda>t. 4 \<le> view_width (fst t)) ts"
    using wide by (auto simp add: ts_def list_all_iff slice_cols_def)
  then obtain ps where loop:
    "to_tf_loop imported s ts shape =
       (normalize_all shape s (map (\<lambda>t. view_addr (fst t)) ts), Inr ps)"
    "length ps = length ts"
    using to_tf_loop_effect [of imported shape ts s, OF callee] by blast
  have addrs: "map (\<lambda>t. view_addr (fst t)) ts = map view_addr dets"
    by (simp add: ts_def slice_cols_def o_def)
  have "to_mode imported s dets ''tf'' shape cm =
          (case to_tf_loop imported s ts shape of
             (s1, Inl e) \<Rightarrow> (s1, Inl e)
           | (s1, Inr proposals) \<Rightarrow> (s1, Inr (TF proposals)))"
    by (simp add: to_mode_def to_tf_def traverse_select_col [OF w4]
        traverse_select_col [OF w5] zip_three_maps ts_def)
  also have "\<dots> = (normalize_all shape s (map view_addr dets), Inr (TF ps))"
    by (simp add: loop(1) addrs)
  finally show ?thesis
    using loop(2) by (simp add: ts_def)
qed

lemma to_mode_qa_effect:
  assumes callee: "\<And>s v. 4 \<le> view_width v \<Longrightarrow>
      imported s v shape = (map_rows (normalized shape) s (view_addr v), Inr v)"
    and wide: "list_all (\<lambda>det. 6 \<le> view_width det) dets"
    and nonempty: "cm \<noteq> []"
    and known: "list_all (\<lambda>det. list_all (\<lambda>r. map_of cm (r ! 5) \<noteq> None)
                     (rows (s ! view_addr det))) dets"
  shows "\<exists>ps. to_mode imported s dets ''qa'' shape (Some cm) =
              (normalize_all shape s (map view_addr dets), Inr (QA ps)) \<and>
              length ps = length dets"
proof -
  have w4: "list_all (\<lambda>det. 4 < view_width det) dets"
    and w5: "list_all (\<lambda>det. 5 < view_width det) dets"
    using wide by (auto simp add: list_all_iff)
  define ts where "ts = map (\<lambda>det. (slice_cols det 4,
      \<lparr>col_addr = view_addr det, col_index = 4\<rparr>,
      \<lparr>col_addr = view_addr det, col_index = 5\<rparr>)) dets"
  have "list_all (\<lambda>(bbs, scs, cls). 4 \<le> view_width bbs \<and> 4 \<le> col_index cls \<and>
              list_all (\<lambda>c. map_of cm c \<noteq> None) (read_col s cls)) ts"
    using wide known by (auto simp add: ts_def list_all_iff slice_cols_def read_col_def)
  then obtain ps where loop:
    "to_qa_loop imported s ts shape cm =
       (normalize_all shape s (map (\<lambda>t. view_addr (fst t)) ts), Inr ps)"
    "length ps = length ts"
    using to_qa_loop_effect [of imported shape cm s ts, OF callee] by blast
  have addrs: "map (\<lambda>t. view_addr (fst t)) ts = map view_addr dets"
    by (simp add: ts_def slice_cols_def o_def)
  have "to_mode imported s dets ''qa'' shape (Some cm) =
          (case to_qa_loop imported s ts shape cm of
             (s1, Inl e) \<Rightarrow> (s1, Inl e)
           | (s1, Inr proposals) \<Rightarrow> (s1, Inr (QA proposals)))"
    using nonempty
    by (simp add: to_mode_def to_qa_def traverse_select_col [OF w4]
        traverse_select_col [OF w5] zip_three_maps ts_def)
  also have "\<dots> = (normalize_all shape s (map view_addr dets), Inr (QA ps))"
    by (simp add: loop(1) addrs)
  finally show ?thesis
    using loop(2) by (simp add: ts_def)
qed

lemma normalize_all_other:
  assumes "a \<notin> set addrs"
  shows "normalize_all shape s addrs ! a = s ! a"
  using assms
  by (induction addrs arbitrary: s) (simp_all add: normalize_all_Nil normalize_all_Cons map_rows_def)

lemma normalize_all_once:
  assumes "distinct addrs" and "a \<in> set addrs" and "a < length s"
  shows "rows (normalize_all shape s addrs ! a) = map (normalized shape) (rows (s ! a))"
  using assms
proof (induction addrs arbitrary: s)
  case Nil
  then show ?case by simp
next
  case (Cons b addrs)
  show ?case
  proof (cases "a = b")
    case True
    then have "a \<notin> set addrs" using Cons.prems by simp
    then show ?thesis
      using True Cons.prems(3)
      by (simp add: normalize_all_Cons normalize_all_other map_rows_def)
  next
    case False
    then have "rows (normalize_all shape (map_rows (normalized shape) s b) addrs ! a) =
               map (normalized shape) (rows (map_rows (normalized shape) s b ! a))"
      using Cons.prems by (intro Cons.IH) (simp_all add: map_rows_def)
    then show ?thesis
      using False by (simp add: normalize_all_Cons map_rows_def)
  qed
qed


lemma two_dets_valid:
  "list_all (\<lambda>det. valid_view two_dets det \<and> 6 \<le> view_width det) [det_view 0, det_view 1]"
  by (simp add: two_dets_def det_view_def valid_view_def)

lemma two_dets_classes:
  "list_all (\<lambda>det. list_all (\<lambda>r. map_of two_classes (r ! 5) \<noteq> None)
               (rows (two_dets ! view_addr det))) [det_view 0, det_view 1]"
  by (simp add: two_dets_def det_view_def two_classes_def)

lemma two_dets_normalize_all:
  "normalize_all (100, 200) two_dets (map view_addr [det_view 0, det_view 1]) =
   two_dets_normalized"
  by (simp add: normalize_all_def map_rows_def normalized_def two_dets_def det_view_def
      two_dets_normalized_def)

lemma letterboxed_valid: "valid_view letterboxed box_view"
  by (simp add: letterboxed_def box_view_def valid_view_def)

text \<open>
  C10: on a valid view with the four box columns and non-zero shapes, \<open>xyxy_to_xyxyn\<close>,
  \<open>xyxyn_to_xyxy\<close> and \<open>scale_boxes\<close> return the reference they were given and
  \<open>clip_boxes\<close> returns nothing, and each leaves the store with the rows of the caller's
  array rewritten and no array added; after \<open>clip_boxes\<close> and \<open>scale_boxes\<close> the box
  coordinates lie within the image. \<open>to_mode\<close> hands views of the detection arrays, not
  copies, to the function that \<open>ahoy.py\<close> imports as \<open>xyxy_to_xyxyn\<close>: when that
  function normalizes in place, as \<open>xyxy_to_xyxyn\<close> above does, the modes \<open>tf\<close> and
  \<open>qa\<close>, on distinct detection arrays of at least six columns (for \<open>qa\<close> with a class
  map that knows every class), leave each detection array with its box columns divided
  by the image width and height.
\<close>

theorem box_transforms_work_in_place:
  assumes "valid_view s bboxes" and "4 \<le> view_width bboxes"
    and "fst shape \<noteq> 0" and "snd shape \<noteq> 0"
    and "fst from_shape \<noteq> 0" and "snd from_shape \<noteq> 0"
    and "list_all (\<lambda>det. valid_view s det \<and> 6 \<le> view_width det) dets"
    and "distinct (map view_addr dets)"
    and "cls_map \<noteq> []"
    and "list_all (\<lambda>det. list_all (\<lambda>r. map_of cls_map (r ! 5) \<noteq> None)
                     (rows (s ! view_addr det))) dets"
    and "\<And>s v. 4 \<le> view_width v \<Longrightarrow>
           imported s v shape = (map_rows (normalized shape) s (view_addr v), Inr v)"
  shows "xyxy_to_xyxyn s bboxes shape =
           (map_rows (normalized shape) s (view_addr bboxes), Inr bboxes)
       \<and> xyxyn_to_xyxy s bboxes shape =
           (map_rows (denormalized shape) s (view_addr bboxes), Inr bboxes)
       \<and> scale_boxes s bboxes from_shape shape =
           (map_rows (rescaled from_shape shape) s (view_addr bboxes), Inr bboxes)
       \<and> clip_boxes s bboxes shape =
           (map_rows (clipped shape) s (view_addr bboxes), Inr ())
       \<and> (0 \<le> fst shape \<and> 0 \<le> snd shape \<longrightarrow>
            list_all (in_frame shape)
              (rows (fst (clip_boxes s bboxes shape) ! view_addr bboxes))
            \<and> list_all (in_frame shape)
              (rows (fst (scale_boxes s bboxes from_shape shape) ! view_addr bboxes)))
       \<and> (\<exists>ps. to_mode imported s dets ''tf'' shape any_map =
                 (normalize_all shape s (map view_addr dets), Inr (TF ps)))
       \<and> (\<exists>ps. to_mode imported s dets ''qa'' shape (Some cls_map) =
                 (normalize_all shape s (map view_addr dets), Inr (QA ps)))
       \<and> list_all (\<lambda>det. rows (normalize_all shape s (map view_addr dets) ! view_addr det) =
                          map (normalized shape) (rows (s ! view_addr det))) dets"
proof -
  have wide: "list_all (\<lambda>det. 6 \<le> view_width det) dets"
    using assms(7) by (simp add: list_all_iff)
  have clip: "clip_boxes s bboxes shape =
                (map_rows (clipped shape) s (view_addr bboxes), Inr ())"
    by (rule clip_boxes_effect [OF assms(2)])
  have scale: "scale_boxes s bboxes from_shape shape =
                 (map_rows (rescaled from_shape shape) s (view_addr bboxes), Inr bboxes)"
    by (rule scale_boxes_effect [OF assms(1,2,3,4)])
  have frame: "list_all (in_frame shape)
                 (rows (fst (clip_boxes s bboxes shape) ! view_addr bboxes))
               \<and> list_all (in_frame shape)
                 (rows (fst (scale_boxes s bboxes from_shape shape) ! view_addr bboxes))"
    if "0 \<le> fst shape \<and> 0 \<le> snd shape"
    using that map_rows_in_frame [OF assms(1,2), of shape "clipped shape"]
      map_rows_in_frame [OF assms(1,2), of shape "rescaled from_shape shape"]
    by (simp add: clip scale clipped_in_frame rescaled_in_frame)
  have "rows (normalize_all shape s (map view_addr dets) ! view_addr det) =
        map (normalized shape) (rows (s ! view_addr det))" if "det \<in> set dets" for det
  proof (rule normalize_all_once [OF assms(8)])
    show "view_addr det \<in> set (map view_addr dets)" using that by simp
    show "view_addr det < length s"
      using that assms(7) by (simp add: list_all_iff valid_view_def)
  qed
  then have "list_all (\<lambda>det. rows (normalize_all shape s (map view_addr dets) ! view_addr det) =
                          map (normalized shape) (rows (s ! view_addr det))) dets"
    by (simp add: list_all_iff)
  moreover obtain tf where
    "to_mode imported s dets ''tf'' shape any_map =
       (normalize_all shape s (map view_addr dets), Inr (TF tf))"
    using to_mode_tf_effect [of imported shape dets s any_map, OF assms(11) wide] by blast
  moreover obtain qa where
    "to_mode imported s dets ''qa'' shape (Some cls_map) =
       (normalize_all shape s (map view_addr dets), Inr (QA qa))"
    using to_mode_qa_effect [of imported shape dets cls_map s, OF assms(11) wide assms(9,10)]
    by blast
  ultimately show ?thesis
    using xyxy_to_xyxyn_effect [OF assms(2)] xyxyn_to_xyxy_effect [OF assms(2)]
      clip scale frame
    by blast
qed

theorem box_transforms_work_in_place_witness:
  "valid_view two_dets (det_view 0)
   \<and> xyxy_to_xyxyn two_dets (det_view 0) (100, 200) =
       (map_rows (normalized (100, 200)) two_dets 0, Inr (det_view 0))
   \<and> fst (to_mode xyxy_to_xyxyn two_dets [det_view 0, det_view 1] ''tf'' (100, 200) None) =
       two_dets_normalized
   \<and> fst (to_mode xyxy_to_xyxyn two_dets [det_view 0, det_view 1] ''qa'' (100, 200)
            (Some two_classes)) =
       two_dets_normalized
   \<and> rows (two_dets ! 0) ! 0 = [100, 50, 200, 150, 9/10, 2]
   \<and> rows (two_dets_normalized ! 0) ! 0 = [1/2, 1/2, 1, 3/2, 9/10, 2]
   \<and> clip_boxes letterboxed box_view (100, 200) =
       ([\<lparr>ncols = 4, rows = [[32, 100, 200, 100], [0, 0, 64, 100]]\<rparr>], Inr ())
   \<and> scale_boxes letterboxed box_view (640, 640) (100, 200) =
       ([\<lparr>ncols = 4, rows = [[10, 10, 200, 100], [0, 0, 20, 50]]\<rparr>], Inr box_view)
   \<and> xyxyn_to_xyxy two_dets_normalized (det_view 1) (100, 200) =
       ([two_dets_normalized ! 0, two_dets ! 1], Inr (det_view 1))"
proof -
  have valid: "valid_view two_dets (det_view 0)"
    using two_dets_valid by simp
  have callee: "\<And>s v. 4 \<le> view_width v \<Longrightarrow>
      xyxy_to_xyxyn s v (100, 200) = (map_rows (normalized (100, 200)) s (view_addr v), Inr v)"
    by (rule xyxy_to_xyxyn_effect)
  have "distinct (map view_addr [det_view 0, det_view 1])"
    by (simp add: det_view_def)
  moreover have "4 \<le> view_width (det_view 0)"
    by (simp add: det_view_def)
  moreover have nonempty: "two_classes \<noteq> []"
    by (simp add: two_classes_def)
  moreover have "fst (100 :: int, 200 :: int) \<noteq> 0" "snd (100 :: int, 200 :: int) \<noteq> 0"
    "fst (640 :: int, 640 :: int) \<noteq> 0" "snd (640 :: int, 640 :: int) \<noteq> 0"
    by simp_all
  ultimately have effects:
    "xyxy_to_xyxyn two_dets (det_view 0) (100, 200) =
       (map_rows (normalized (100, 200)) two_dets (view_addr (det_view 0)), Inr (det_view 0))
     \<and> (\<exists>ps. to_mode xyxy_to_xyxyn two_dets [det_view 0, det_view 1] ''tf'' (100, 200) None =
           (normalize_all (100, 200) two_dets (map view_addr [det_view 0, det_view 1]),
            Inr (TF ps)))
     \<and> (\<exists>ps. to_mode xyxy_to_xyxyn two_dets [det_view 0, det_view 1] ''qa'' (100, 200)
                (Some two_classes) =
           (normalize_all (100, 200) two_dets (map view_addr [det_view 0, det_view 1]),
            Inr (QA ps)))"
    using box_transforms_work_in_place
      [of two_dets "det_view 0" "(100, 200)" "(640, 640)" "[det_view 0, det_view 1]"
          two_classes xyxy_to_xyxyn None]
      valid two_dets_valid two_dets_classes callee
    by blast
  have "view_addr (det_view 0) = 0"
    by (simp add: det_view_def)
  then have first: "xyxy_to_xyxyn two_dets (det_view 0) (100, 200) =
       (map_rows (normalized (100, 200)) two_dets 0, Inr (det_view 0))"
    using effects by simp
  obtain tf where
    "to_mode xyxy_to_xyxyn two_dets [det_view 0, det_view 1] ''tf'' (100, 200) None =
      (two_dets_normalized, Inr (TF tf))"
    using effects unfolding two_dets_normalize_all by blast
  then have second:
    "fst (to_mode xyxy_to_xyxyn two_dets [det_view 0, det_view 1] ''tf'' (100, 200) None) =
     two_dets_normalized"
    by simp
  obtain qa where
    "to_mode xyxy_to_xyxyn two_dets [det_view 0, det_view 1] ''qa'' (100, 200)
       (Some two_classes) =
      (two_dets_normalized, Inr (QA qa))"
    using effects unfolding two_dets_normalize_all by blast
  then have third:
    "fst (to_mode xyxy_to_xyxyn two_dets [det_view 0, det_view 1] ''qa'' (100, 200)
            (Some two_classes)) =
     two_dets_normalized"
    by simp
  have fourth: "rows (two_dets ! 0) ! 0 = [100, 50, 200, 150, 9/10, 2]"
    "rows (two_dets_normalized ! 0) ! 0 = [1/2, 1/2, 1, 3/2, 9/10, 2]"
    by (simp_all add: two_dets_def two_dets_normalized_def)
  have wide: "4 \<le> view_width box_view"
    by (simp add: box_view_def)
  have shapes: "fst (100 :: int, 200 :: int) \<noteq> 0" "snd (100 :: int, 200 :: int) \<noteq> 0"
    "fst (640 :: int, 640 :: int) \<noteq> 0" "snd (640 :: int, 640 :: int) \<noteq> 0"
    by simp_all
  have none: "list_all (\<lambda>det. valid_view letterboxed det \<and> 6 \<le> view_width det) []"
    "distinct (map view_addr [])"
    "list_all (\<lambda>det. list_all (\<lambda>r. map_of two_classes (r ! 5) \<noteq> None)
                 (rows (letterboxed ! view_addr det))) []"
    by simp_all
  note boxes = box_transforms_work_in_place
      [of letterboxed box_view "(100, 200)" "(640, 640)" "[]" two_classes xyxy_to_xyxyn,
       OF letterboxed_valid wide shapes none(1,2) nonempty none(3) callee]
  have fifth: "clip_boxes letterboxed box_view (100, 200) =
       ([\<lparr>ncols = 4, rows = [[32, 100, 200, 100], [0, 0, 64, 100]]\<rparr>], Inr ())"
    using boxes
    by (simp add: map_rows_def clipped_def bounded_def letterboxed_def box_view_def)
  have sixth: "scale_boxes letterboxed box_view (640, 640) (100, 200) =
       ([\<lparr>ncols = 4, rows = [[10, 10, 200, 100], [0, 0, 20, 50]]\<rparr>], Inr box_view)"
    using boxes
    by (simp add: map_rows_def rescaled_def gain_of_def bounded_def Let_def letterboxed_def
        box_view_def)
  have valid1: "valid_view two_dets_normalized (det_view 1)" "4 \<le> view_width (det_view 1)"
    by (simp_all add: two_dets_normalized_def det_view_def valid_view_def)
  have none1: "list_all (\<lambda>det. valid_view two_dets_normalized det \<and> 6 \<le> view_width det) []"
    "list_all (\<lambda>det. list_all (\<lambda>r. map_of two_classes (r ! 5) \<noteq> None)
                 (rows (two_dets_normalized ! view_addr det))) []"
    by simp_all
  note restored = box_transforms_work_in_place
      [of two_dets_normalized "det_view 1" "(100, 200)" "(640, 640)" "[]" two_classes
          xyxy_to_xyxyn,
       OF valid1 shapes none1(1) none(2) nonempty none1(2) callee]
  have seventh: "xyxyn_to_xyxy two_dets_normalized (det_view 1) (100, 200) =
       ([two_dets_normalized ! 0, two_dets ! 1], Inr (det_view 1))"
    using restored
    by (simp add: map_rows_def denormalized_def two_dets_normalized_def two_dets_def
        det_view_def)
  show ?thesis
    using valid first second third fourth fifth sixth seventh by simp
qed

end
